theory Spec2Isabelle
  imports Main "HOL-Library.Word" "HOL-Library.Sublist"
begin

section \<open>pam\_recent: the session hook of \<^verbatim>\<open>src/pam_recent.c\<close>\<close>

text \<open>
  The module is one C function, \<^verbatim>\<open>pam_sm_open_session\<close>, and a no-op
  \<^verbatim>\<open>pam_sm_close_session\<close>. Everything it does goes through libc and libpam: it probes
  a path with \<^verbatim>\<open>access\<close>, asks libpam for \<^verbatim>\<open>PAM_RHOST\<close>, resolves it with
  \<^verbatim>\<open>gethostbyname\<close>, formats the address with \<^verbatim>\<open>inet_ntop\<close>, opens the pseudo-file and
  prints one line into it. The embedding keeps the function's control flow and makes the
  outside world explicit: the answers of the environment are the fields of a record
  \<open>world\<close>, and the calls the function makes are returned as a list of events, in program
  order.

  C strings are \<open>string\<close> (lists of characters without the terminating NUL, which cannot
  occur inside a C string), so \<^verbatim>\<open>strcmp(a,b) == 0\<close> is equality of lists.
\<close>

subsection \<open>Constants of the module and of the system headers\<close>

definition ACTION_REMOVE :: string where "ACTION_REMOVE = ''-''"
definition ACTION_ADD :: string where "ACTION_ADD = ''+''"
definition NAME :: string where "NAME = ''DEFAULT''"
definition LOCOLD :: string where "LOCOLD = ''/proc/net/ipt_recent''"
definition LOCNEW :: string where "LOCNEW = ''/proc/net/xt_recent''"

text \<open>
  Values of the Linux headers the module is compiled against (the module is
  ``a pam module for linux systems''): \<^verbatim>\<open>security/_pam_types.h\<close>, \<^verbatim>\<open>syslog.h\<close>,
  \<^verbatim>\<open>linux/limits.h\<close>, \<^verbatim>\<open>sys/socket.h\<close>, \<^verbatim>\<open>errno.h\<close>.
\<close>

definition PAM_SUCCESS :: int where "PAM_SUCCESS = 0"
definition PAM_SESSION_ERR :: int where "PAM_SESSION_ERR = 14"
definition LOG_ERR :: int where "LOG_ERR = 3"
definition LOG_DEBUG :: int where "LOG_DEBUG = 7"
definition PATH_MAX :: nat where "PATH_MAX = 4096"
definition AF_INET :: int where "AF_INET = 2"
definition AF_INET6 :: int where "AF_INET6 = 10"
definition EAFNOSUPPORT :: int where "EAFNOSUPPORT = 97"
definition ENOSPC :: int where "ENOSPC = 28"

definition newline :: char where "newline = CHR 0x0A"

text \<open>A text between double quotes, for the format strings that contain them.\<close>

definition dq :: "string \<Rightarrow> string" where "dq s = [CHR 0x22] @ s @ [CHR 0x22]"

subsection \<open>libc string functions used by the module\<close>

text \<open>\<^verbatim>\<open>strncmp(s, t, n) == 0\<close>: the first \<open>n\<close> characters agree, a shorter string
  ending where the other goes on being a difference.\<close>

definition strncmp_eq :: "string \<Rightarrow> string \<Rightarrow> nat \<Rightarrow> bool" where
  "strncmp_eq s t n = (take n s = take n t)"

text \<open>\<^verbatim>\<open>tolower\<close> in the C locale; \<^verbatim>\<open>strncasecmp(s, t, n) == 0\<close> compares the
  lower-cased characters.\<close>

definition c_tolower :: "char \<Rightarrow> char" where
  "c_tolower c =
     (if 65 \<le> (of_char c :: nat) \<and> (of_char c :: nat) \<le> 90
      then char_of ((of_char c :: nat) + 32) else c)"

definition strncasecmp_eq :: "string \<Rightarrow> string \<Rightarrow> nat \<Rightarrow> bool" where
  "strncasecmp_eq s t n = (map c_tolower (take n s) = map c_tolower (take n t))"

text \<open>\<^verbatim>\<open>strchr(s, c) != NULL\<close>.\<close>

definition strchr_found :: "string \<Rightarrow> char \<Rightarrow> bool" where
  "strchr_found s c = (c \<in> set s)"

text \<open>\<^verbatim>\<open>snprintf(buf, size, "%s/%s", a, b)\<close>: at most \<open>sz - 1\<close> characters of the
  formatted text are stored, followed by the NUL; the return value (the untruncated
  length) is ignored by the module.\<close>

definition snprintf_path :: "nat \<Rightarrow> string \<Rightarrow> string \<Rightarrow> string" where
  "snprintf_path sz a b = take (sz - 1) (a @ ''/'' @ b)"

subsection \<open>\<^verbatim>\<open>inet_ntop\<close>\<close>

text \<open>Unsigned decimal (\<^verbatim>\<open>%u\<close>) and lower-case hexadecimal (\<^verbatim>\<open>%x\<close>) as printf
  renders them.\<close>

fun dec_digits :: "nat \<Rightarrow> string" where
  "dec_digits n =
     (if n < 10 then [char_of (48 + n)]
      else dec_digits (n div 10) @ [char_of (48 + n mod 10)])"

declare dec_digits.simps [simp del]

definition hex_digit :: "nat \<Rightarrow> char" where
  "hex_digit d = (if d < 10 then char_of (48 + d) else char_of (87 + d))"

fun hex_digits :: "nat \<Rightarrow> string" where
  "hex_digits n =
     (if n < 16 then [hex_digit n]
      else hex_digits (n div 16) @ [hex_digit (n mod 16)])"

declare hex_digits.simps [simp del]

text \<open>\<^verbatim>\<open>inet_ntop4\<close>: \<^verbatim>\<open>"%u.%u.%u.%u"\<close> of the four bytes (at most 15 characters).\<close>

definition inet_ntop4 :: "8 word \<Rightarrow> 8 word \<Rightarrow> 8 word \<Rightarrow> 8 word \<Rightarrow> string" where
  "inet_ntop4 a b c d =
     dec_digits (unat a) @ ''.'' @ dec_digits (unat b) @ ''.'' @
     dec_digits (unat c) @ ''.'' @ dec_digits (unat d)"

text \<open>
  \<^verbatim>\<open>inet_ntop6\<close> as in glibc (\<^verbatim>\<open>resolv/inet_ntop.c\<close>): the sixteen bytes are read as
  eight 16-bit words, the longest run of at least two zero words is found (the first
  one among equals), and the words are printed in hexadecimal separated by colons, the
  run as \<^verbatim>\<open>::\<close>; an address whose first five or six words are the run (the fifth
  \<^verbatim>\<open>ffff\<close> when the run has five) ends in the dotted quad of its last four bytes.
  A run is a pair (base, len) with base \<open>-1\<close> for ``none'', as in the C.
\<close>

fun words_of :: "8 word list \<Rightarrow> nat list" where
  "words_of (hi # lo # bs) = (unat hi * 256 + unat lo) # words_of bs"
| "words_of _ = []"

fun scan_runs :: "nat list \<Rightarrow> int \<Rightarrow> int \<times> int \<Rightarrow> int \<times> int \<Rightarrow> (int \<times> int) \<times> (int \<times> int)" where
  "scan_runs [] i best cur = (best, cur)"
| "scan_runs (w # ws) i best cur =
     (if w = 0 then
        (if fst cur = -1 then scan_runs ws (i + 1) best (i, 1)
         else scan_runs ws (i + 1) best (fst cur, snd cur + 1))
      else
        (if fst cur \<noteq> -1 then
           scan_runs ws (i + 1)
             (if fst best = -1 \<or> snd cur > snd best then cur else best) (-1, snd cur)
         else scan_runs ws (i + 1) best cur))"

definition best_run :: "nat list \<Rightarrow> int \<times> int" where
  "best_run ws =
     (let (best, cur) = scan_runs ws 0 (-1, 0) (-1, 0);
          best' = (if fst cur \<noteq> -1 \<and> (fst best = -1 \<or> snd cur > snd best) then cur else best)
      in if fst best' \<noteq> -1 \<and> snd best' < 2 then (-1, snd best') else best')"

fun print_words :: "int \<times> int \<Rightarrow> bool \<Rightarrow> string \<Rightarrow> int \<Rightarrow> nat list \<Rightarrow> string" where
  "print_words best v4 quad i [] = []"
| "print_words best v4 quad i (w # ws) =
     (if fst best \<noteq> -1 \<and> i \<ge> fst best \<and> i < fst best + snd best then
        (if i = fst best then '':'' else []) @ print_words best v4 quad (i + 1) ws
      else
        (if i \<noteq> 0 then '':'' else []) @
        (if i = 6 \<and> v4 then quad
         else hex_digits w @ print_words best v4 quad (i + 1) ws))"

definition inet_ntop6 :: "8 word list \<Rightarrow> string" where
  "inet_ntop6 src =
     (let ws = words_of (take 16 src);
          best = best_run ws;
          v4 = (fst best = 0 \<and> (snd best = 6 \<or> (snd best = 5 \<and> ws ! 5 = 0xffff)));
          quad = inet_ntop4 (src ! 12) (src ! 13) (src ! 14) (src ! 15)
      in print_words best v4 quad 0 ws @
         (if fst best \<noteq> -1 \<and> fst best + snd best = 8 then '':'' else []))"

text \<open>
  \<^verbatim>\<open>inet_ntop(af, src, dst, size)\<close> returns \<open>dst\<close> filled with the text, or NULL with
  \<^verbatim>\<open>errno\<close> set: \<^verbatim>\<open>EAFNOSUPPORT\<close> for a family other than \<^verbatim>\<open>AF_INET\<close> and
  \<^verbatim>\<open>AF_INET6\<close>, \<^verbatim>\<open>ENOSPC\<close> when the text and its NUL do not fit in \<open>sz\<close> bytes.
  The result is \<open>Inr\<close> the text or \<open>Inl\<close> the errno. The function reads 4 (16) bytes
  at \<open>src\<close>; the resolver hands out addresses of that length, and a shorter list, which
  in C would be a read past the buffer, is given \<^verbatim>\<open>EAFNOSUPPORT\<close> here so that no
  theorem below rests on such a read.
\<close>

definition inet_ntop :: "int \<Rightarrow> 8 word list \<Rightarrow> nat \<Rightarrow> int + string" where
  "inet_ntop af src sz =
     (if af = AF_INET then
        (case src of
           a # b # c # d # _ \<Rightarrow>
             (if length (inet_ntop4 a b c d) < sz then Inr (inet_ntop4 a b c d)
              else Inl ENOSPC)
         | _ \<Rightarrow> Inl EAFNOSUPPORT)
      else if af = AF_INET6 then
        (if 16 \<le> length src then
           (if length (inet_ntop6 src) < sz then Inr (inet_ntop6 src) else Inl ENOSPC)
         else Inl EAFNOSUPPORT)
      else Inl EAFNOSUPPORT)"

subsection \<open>The environment and the calls made\<close>

text \<open>\<^verbatim>\<open>struct hostent\<close>, the two fields the module reads: the address family and
  \<^verbatim>\<open>h_addr_list[0]\<close> (which \<^verbatim>\<open>netdb.h\<close> also calls \<^verbatim>\<open>h_addr\<close>), the first address as
  bytes in network order.\<close>

record hostent =
  h_addrtype :: int
  h_addr :: "8 word list"

text \<open>
  What the environment answers during one invocation:
  \<^item> \<open>access_F_OK p\<close>: \<^verbatim>\<open>access(p, F_OK) == 0\<close>, an entry exists at \<open>p\<close>;
  \<^item> \<open>get_item_ret\<close>, \<open>get_item_rhost\<close>: the return value of
    \<^verbatim>\<open>pam_get_item(pamh, PAM_RHOST, &rhostname)\<close> and the pointer it stores, \<open>None\<close> for NULL;
  \<^item> \<open>gethostbyname n\<close>: \<open>Inr\<close> the host entry, or \<open>Inl\<close> the \<^verbatim>\<open>h_errno\<close> set with a
    NULL return;
  \<^item> \<open>fopen_w p\<close>: \<^verbatim>\<open>fopen(p, "w")\<close>, \<open>None\<close> when a stream is returned, \<open>Some\<close> the
    \<^verbatim>\<open>errno\<close> when NULL is;
  \<^item> \<open>strerror\<close>, \<open>pam_strerror\<close>: the message tables.
\<close>

record world =
  access_F_OK :: "string \<Rightarrow> bool"
  get_item_ret :: int
  get_item_rhost :: "string option"
  gethostbyname :: "string \<Rightarrow> int + hostent"
  fopen_w :: "string \<Rightarrow> int option"
  strerror :: "int \<Rightarrow> string"
  pam_strerror :: "int \<Rightarrow> string"

text \<open>The calls with an effect or an answer from outside, as events. \<open>Syslog\<close> keeps the
  priority, the format string and the arguments of \<^verbatim>\<open>pam_syslog\<close>; \<open>Fprintf p s\<close> is
  the text \<open>s\<close> printed to the stream opened on path \<open>p\<close>.\<close>

datatype fmtarg = ArgInt int | ArgStr string

datatype event =
    Syslog int string "fmtarg list"
  | Access string
  | GetItem
  | Gethostbyname string
  | Fopen string
  | Fprintf string string
  | Fclose string

subsection \<open>\<^verbatim>\<open>pam_sm_open_session\<close>, by source lines\<close>

text \<open>Lines 116--129: the mode argument; \<open>Some remove\<close>, or \<open>None\<close> for the error branch.\<close>

definition parse_action :: "string \<Rightarrow> bool option" where
  "parse_action a =
     (if a = ACTION_ADD then Some False
      else if a = ACTION_REMOVE then Some True
      else None)"

text \<open>Line 132: the optional second argument names the list.\<close>

definition list_name :: "string list \<Rightarrow> string" where
  "list_name argv = (if int (length argv) = 2 then argv ! 1 else NAME)"

text \<open>Lines 134--141: the candidate under the new directory is built and probed; when
  \<^verbatim>\<open>access\<close> fails the buffer is overwritten with the candidate under the old one.\<close>

definition select_fname :: "world \<Rightarrow> string \<Rightarrow> string \<times> event list" where
  "select_fname w dbname =
     (let fname = snprintf_path PATH_MAX LOCNEW dbname in
      if \<not> access_F_OK w fname
      then (snprintf_path PATH_MAX LOCOLD dbname, [Access fname])
      else (fname, [Access fname]))"

text \<open>Lines 170--184: the pointer \<open>p\<close> into \<open>rhostname\<close>, \<open>None\<close> while it is NULL.\<close>

definition extract_ipv4 :: "string \<Rightarrow> string option" where
  "extract_ipv4 rhostname =
     (if strncmp_eq rhostname ''::'' 2 then
        (let p = drop 2 rhostname in
         if strncasecmp_eq p ''ffff:'' 5 then Some (drop 5 p) else Some p)
      else if strncasecmp_eq rhostname ''0:0:0:0:0:'' 10 then
        (let p = drop 10 rhostname in
         if strncasecmp_eq p ''0:'' 2 then Some (drop 2 p)
         else if strncasecmp_eq p ''ffff:'' 5 then Some (drop 5 p)
         else Some p)
      else None)"

text \<open>Lines 160--187: the lookup, with the retry on the extracted text. The result is the
  final \<open>rhost\<close> (\<open>Inl\<close> the \<^verbatim>\<open>h_errno\<close> of the last failed call while it is NULL).\<close>

definition lookup_rhost :: "world \<Rightarrow> string \<Rightarrow> (int + hostent) \<times> event list" where
  "lookup_rhost w rhostname =
     (case gethostbyname w rhostname of
        Inr rhost \<Rightarrow> (Inr rhost, [Gethostbyname rhostname])
      | Inl herr \<Rightarrow>
          (if strchr_found rhostname CHR '':'' then
             (case extract_ipv4 rhostname of
                Some p \<Rightarrow> (gethostbyname w p, [Gethostbyname rhostname, Gethostbyname p])
              | None \<Rightarrow> (Inl herr, [Gethostbyname rhostname]))
           else (Inl herr, [Gethostbyname rhostname])))"

text \<open>Lines 101--217. The result is the return value and the events of the call.\<close>

definition pam_sm_open_session :: "world \<Rightarrow> string list \<Rightarrow> int \<times> event list" where
  "pam_sm_open_session w argv =
     (let argc = int (length argv) in
      if argc < 1 \<or> argc > 2 then
        (PAM_SESSION_ERR,
         [Syslog LOG_ERR (''expected 1 or 2 arguments but got %d'' @ [newline]) [ArgInt argc]])
      else
        (case parse_action (argv ! 0) of
           None \<Rightarrow>
             (PAM_SESSION_ERR,
              [Syslog LOG_ERR
                 (''expected '' @ dq ''%s'' @ '' or '' @ dq ''%s'' @
                  '' as argument, got '' @ dq ''%s'')
                 [ArgStr ACTION_REMOVE, ArgStr ACTION_ADD, ArgStr (argv ! 0)]])
         | Some remove \<Rightarrow>
             (let dbname = list_name argv;
                  (fname, ev1) = select_fname w dbname
              in
              if get_item_ret w \<noteq> PAM_SUCCESS then
                (PAM_SESSION_ERR,
                 ev1 @ [GetItem,
                   Syslog LOG_ERR ''could not get PAM_RHOST: %s''
                     [ArgStr (pam_strerror w (get_item_ret w))]])
              else
                (case get_item_rhost w of
                   None \<Rightarrow>
                     (PAM_SESSION_ERR,
                      ev1 @ [GetItem, Syslog LOG_ERR ''no PAM_RHOST, not a network login'' []])
                 | Some rhostname \<Rightarrow>
                     (case lookup_rhost w rhostname of
                        (Inl herr, ev2) \<Rightarrow>
                          (PAM_SESSION_ERR,
                           ev1 @ [GetItem] @ ev2 @
                           [Syslog LOG_ERR ''could not lookup address for %s: %d''
                              [ArgStr rhostname, ArgInt herr]])
                      | (Inr rhost, ev2) \<Rightarrow>
                          (case inet_ntop (h_addrtype rhost) (h_addr rhost) 128 of
                             Inl errno \<Rightarrow>
                               (PAM_SESSION_ERR,
                                ev1 @ [GetItem] @ ev2 @
                                [Syslog LOG_ERR ''address conversion error: %s''
                                   [ArgStr (strerror w errno)]])
                           | Inr address \<Rightarrow>
                               (case fopen_w w fname of
                                  Some errno \<Rightarrow>
                                    (PAM_SESSION_ERR,
                                     ev1 @ [GetItem] @ ev2 @
                                     [Fopen fname,
                                      Syslog LOG_ERR ''can't open %s: %s''
                                        [ArgStr fname, ArgStr (strerror w errno)]])
                                | None \<Rightarrow>
                                    (PAM_SUCCESS,
                                     ev1 @ [GetItem] @ ev2 @
                                     [Fopen fname,
                                      Fprintf fname
                                        ((if remove then ACTION_REMOVE else ACTION_ADD) @
                                         address @ [newline]),
                                      Fclose fname,
                                      Syslog LOG_DEBUG
                                        (if remove then ''removed %s/%s from list %s''
                                         else ''added %s/%s to list %s'')
                                        [ArgStr rhostname, ArgStr address, ArgStr dbname]]))))))))"


text \<open>\<^verbatim>\<open>pam_sm_close_session\<close> (lines 95--98) returns \<^verbatim>\<open>PAM_SUCCESS\<close> and calls nothing.\<close>

definition pam_sm_close_session :: "world \<Rightarrow> string list \<Rightarrow> int \<times> event list" where
  "pam_sm_close_session w argv = (PAM_SUCCESS, [])"

subsection \<open>Observations on the events of a call\<close>

text \<open>The texts printed to streams, with the path each stream was opened on.\<close>

primrec writes :: "event list \<Rightarrow> (string \<times> string) list" where
  "writes [] = []"
| "writes (e # es) = (case e of Fprintf p s \<Rightarrow> (p, s) # writes es | _ \<Rightarrow> writes es)"

text \<open>The paths opened, the names handed to the resolver, the paths probed, and the
  format strings logged at error priority.\<close>

primrec opens :: "event list \<Rightarrow> string list" where
  "opens [] = []"
| "opens (e # es) = (case e of Fopen p \<Rightarrow> p # opens es | _ \<Rightarrow> opens es)"

primrec lookups :: "event list \<Rightarrow> string list" where
  "lookups [] = []"
| "lookups (e # es) = (case e of Gethostbyname n \<Rightarrow> n # lookups es | _ \<Rightarrow> lookups es)"

primrec probes :: "event list \<Rightarrow> string list" where
  "probes [] = []"
| "probes (e # es) = (case e of Access p \<Rightarrow> p # probes es | _ \<Rightarrow> probes es)"

primrec errors :: "event list \<Rightarrow> string list" where
  "errors [] = []"
| "errors (e # es) =
     (case e of
        Syslog pri fmt args \<Rightarrow> (if pri = LOG_ERR then fmt # errors es else errors es)
      | _ \<Rightarrow> errors es)"

fun is_probe :: "event \<Rightarrow> bool" where
  "is_probe (Access p) = True"
| "is_probe _ = False"

fun is_lookup :: "event \<Rightarrow> bool" where
  "is_lookup (Gethostbyname n) = True"
| "is_lookup _ = False"

fun is_write :: "event \<Rightarrow> bool" where
  "is_write (Fprintf p s) = True"
| "is_write _ = False"

text \<open>\<open>before P Q evs\<close>: in \<open>evs\<close> no event of kind \<open>P\<close> comes after an event of kind
  \<open>Q\<close>, that is, everything of kind \<open>P\<close> happens before anything of kind \<open>Q\<close>.\<close>

primrec before :: "(event \<Rightarrow> bool) \<Rightarrow> (event \<Rightarrow> bool) \<Rightarrow> event list \<Rightarrow> bool" where
  "before P Q [] = True"
| "before P Q (e # es) =
     ((if Q e then list_all (\<lambda>x. \<not> P x) es else True) \<and> before P Q es)"

text \<open>The presentation text of the address a call ends up with (lines 160--201), \<open>None\<close>
  when there is no host name, no host entry or no text.\<close>

definition resolved_address :: "world \<Rightarrow> string option" where
  "resolved_address w =
     (case get_item_rhost w of
        None \<Rightarrow> None
      | Some rhostname \<Rightarrow>
          (case fst (lookup_rhost w rhostname) of
             Inl herr \<Rightarrow> None
           | Inr rhost \<Rightarrow>
               (case inet_ntop (h_addrtype rhost) (h_addr rhost) 128 of
                  Inl errno \<Rightarrow> None
                | Inr address \<Rightarrow> Some address)))"

text \<open>The log records of the error branches, by the name the specification gives each.\<close>

definition ArgumentCountError :: "int \<Rightarrow> event" where
  "ArgumentCountError argc =
     Syslog LOG_ERR (''expected 1 or 2 arguments but got %d'' @ [newline]) [ArgInt argc]"

definition InvalidModeError :: "string \<Rightarrow> event" where
  "InvalidModeError a =
     Syslog LOG_ERR
       (''expected '' @ dq ''%s'' @ '' or '' @ dq ''%s'' @ '' as argument, got '' @ dq ''%s'')
       [ArgStr ''-'', ArgStr ''+'', ArgStr a]"

definition MissingHostError :: event where
  "MissingHostError = Syslog LOG_ERR ''no PAM_RHOST, not a network login'' []"

definition GetItemError :: "string \<Rightarrow> event" where
  "GetItemError msg = Syslog LOG_ERR ''could not get PAM_RHOST: %s'' [ArgStr msg]"

text \<open>The specification has one name for ``no remote-host identifier available'': both
  records above count as the missing-host error.\<close>

definition missing_host_error :: "event \<Rightarrow> bool" where
  "missing_host_error e =
     (case e of
        Syslog pri fmt args \<Rightarrow>
          pri = LOG_ERR \<and>
          (fmt = ''no PAM_RHOST, not a network login'' \<or> fmt = ''could not get PAM_RHOST: %s'')
      | _ \<Rightarrow> False)"

definition ResolutionError :: "string \<Rightarrow> int \<Rightarrow> event" where
  "ResolutionError rhostname herr =
     Syslog LOG_ERR ''could not lookup address for %s: %d'' [ArgStr rhostname, ArgInt herr]"

subsection \<open>Dotted-quad texts\<close>

text \<open>A recogniser for dotted quads, independent of the printer: four fields separated by
  dots, each one to three decimal digits with a value of at most 255.\<close>

definition is_digit :: "char \<Rightarrow> bool" where
  "is_digit c = (48 \<le> (of_char c :: nat) \<and> (of_char c :: nat) \<le> 57)"

fun dot_fields :: "string \<Rightarrow> string list" where
  "dot_fields [] = [[]]"
| "dot_fields (c # cs) =
     (if c = CHR ''.'' then [] # dot_fields cs
      else (case dot_fields cs of f # fs \<Rightarrow> (c # f) # fs | [] \<Rightarrow> [[c]]))"




subsection \<open>The extraction rules in the specification's words\<close>

text \<open>
  The specification, section 4.1, step 4b: ``If the identifier starts with "::": strip
  that prefix; if the remainder starts with "ffff:" (case-insensitive), strip that too.
  Else if the identifier starts with "0:0:0:0:0:" (case-insensitive): strip that prefix;
  if the remainder then starts with "0:" strip it, else if it starts with "ffff:"
  (case-insensitive) strip that. If neither prefix pattern matches, resolution remains
  failed.'' \<open>spec_embedded_ipv4\<close> is the text to retry with, \<open>None\<close> for no retry.
\<close>

definition starts_with :: "string \<Rightarrow> string \<Rightarrow> bool" where
  "starts_with s pre = prefix pre s"

definition starts_with_ci :: "string \<Rightarrow> string \<Rightarrow> bool" where
  "starts_with_ci s pre = prefix (map c_tolower pre) (map c_tolower s)"

definition strip :: "string \<Rightarrow> string \<Rightarrow> string" where
  "strip pre s = drop (length pre) s"

definition spec_embedded_ipv4 :: "string \<Rightarrow> string option" where
  "spec_embedded_ipv4 ident =
     (if starts_with ident ''::'' then
        (let r = strip ''::'' ident in
         Some (if starts_with_ci r ''ffff:'' then strip ''ffff:'' r else r))
      else if starts_with_ci ident ''0:0:0:0:0:'' then
        (let r = strip ''0:0:0:0:0:'' ident in
         Some (if starts_with r ''0:'' then strip ''0:'' r
               else if starts_with_ci r ''ffff:'' then strip ''ffff:'' r
               else r))
      else None)"

subsection \<open>Example environments\<close>

text \<open>
  \<open>example_world rhost\<close>: only the list \<^verbatim>\<open>DEFAULT\<close> exists, under the new directory;
  \<^verbatim>\<open>PAM_RHOST\<close> is \<open>rhost\<close>; the resolver knows the literal address
  \<^verbatim>\<open>203.0.113.5\<close> and a host \<^verbatim>\<open>host6.example.net\<close> with the IPv6 address
  \<^verbatim>\<open>2001:db8::1\<close> only, and answers \<^verbatim>\<open>HOST_NOT_FOUND\<close> (1) to everything else; every
  open succeeds. \<open>legacy_world\<close> is the same on a kernel with the old directory only.
\<close>

definition example_world :: "string option \<Rightarrow> world" where
  "example_world rhost =
     \<lparr> access_F_OK = (\<lambda>p. p = ''/proc/net/xt_recent/DEFAULT''),
       get_item_ret = PAM_SUCCESS,
       get_item_rhost = rhost,
       gethostbyname = (\<lambda>n.
         if n = ''203.0.113.5'' then Inr \<lparr> h_addrtype = AF_INET, h_addr = [203, 0, 113, 5] \<rparr>
         else if n = ''host6.example.net'' then
           Inr \<lparr> h_addrtype = AF_INET6,
                 h_addr = [0x20, 0x01, 0x0d, 0xb8, 0, 0, 0, 0, 0, 0, 0, 0, 0, 0, 0, 1] \<rparr>
         else Inl 1),
       fopen_w = (\<lambda>p. None),
       strerror = (\<lambda>e. ''error''),
       pam_strerror = (\<lambda>e. ''error'') \<rparr>"

definition legacy_world :: "string option \<Rightarrow> world" where
  "legacy_world rhost = (example_world rhost) \<lparr> access_F_OK := (\<lambda>p. False) \<rparr>"

text \<open>A list name of 4090 characters, longer than any path buffer leaves room for.\<close>

definition long_name :: string where
  "long_name = replicate 4090 CHR ''a''"

section \<open>Lemmas\<close>

subsection \<open>The shape of a call\<close>

lemma writes_append: "writes (xs @ ys) = writes xs @ writes ys"
  by (induction xs) (auto split: event.splits)

lemma snd_select_fname:
  "snd (select_fname w n) = [Access (snprintf_path PATH_MAX LOCNEW n)]"
  by (simp add: select_fname_def Let_def)

lemma fst_select_fname:
  "fst (select_fname w n) =
     (if access_F_OK w (snprintf_path PATH_MAX LOCNEW n) then snprintf_path PATH_MAX LOCNEW n
      else snprintf_path PATH_MAX LOCOLD n)"
  by (simp add: select_fname_def Let_def)

lemma writes_lookup: "writes (snd (lookup_rhost w n)) = []"
  by (simp add: lookup_rhost_def split: sum.splits option.splits)

lemma session_unfold:
  "pam_sm_open_session w argv =
     (if length argv \<noteq> 1 \<and> length argv \<noteq> 2 then
        (PAM_SESSION_ERR,
         [Syslog LOG_ERR (''expected 1 or 2 arguments but got %d'' @ [newline])
            [ArgInt (int (length argv))]])
      else
        (case parse_action (argv ! 0) of
           None \<Rightarrow>
             (PAM_SESSION_ERR,
              [Syslog LOG_ERR
                 (''expected '' @ dq ''%s'' @ '' or '' @ dq ''%s'' @
                  '' as argument, got '' @ dq ''%s'')
                 [ArgStr ACTION_REMOVE, ArgStr ACTION_ADD, ArgStr (argv ! 0)]])
         | Some remove \<Rightarrow>
              if get_item_ret w \<noteq> PAM_SUCCESS then
                (PAM_SESSION_ERR,
                 snd (select_fname w (list_name argv)) @ [GetItem,
                   Syslog LOG_ERR ''could not get PAM_RHOST: %s''
                     [ArgStr (pam_strerror w (get_item_ret w))]])
              else
                (case get_item_rhost w of
                   None \<Rightarrow>
                     (PAM_SESSION_ERR,
                      snd (select_fname w (list_name argv)) @
                      [GetItem, Syslog LOG_ERR ''no PAM_RHOST, not a network login'' []])
                 | Some rhostname \<Rightarrow>
                     (case fst (lookup_rhost w rhostname) of
                        Inl herr \<Rightarrow>
                          (PAM_SESSION_ERR,
                           snd (select_fname w (list_name argv)) @ [GetItem] @
                           snd (lookup_rhost w rhostname) @
                           [Syslog LOG_ERR ''could not lookup address for %s: %d''
                              [ArgStr rhostname, ArgInt herr]])
                      | Inr rhost \<Rightarrow>
                          (case inet_ntop (h_addrtype rhost) (h_addr rhost) 128 of
                             Inl errno \<Rightarrow>
                               (PAM_SESSION_ERR,
                                snd (select_fname w (list_name argv)) @ [GetItem] @
                                snd (lookup_rhost w rhostname) @
                                [Syslog LOG_ERR ''address conversion error: %s''
                                   [ArgStr (strerror w errno)]])
                           | Inr address \<Rightarrow>
                               (case fopen_w w (fst (select_fname w (list_name argv))) of
                                  Some errno \<Rightarrow>
                                    (PAM_SESSION_ERR,
                                     snd (select_fname w (list_name argv)) @ [GetItem] @
                                     snd (lookup_rhost w rhostname) @
                                     [Fopen (fst (select_fname w (list_name argv))),
                                      Syslog LOG_ERR ''can't open %s: %s''
                                        [ArgStr (fst (select_fname w (list_name argv))),
                                         ArgStr (strerror w errno)]])
                                | None \<Rightarrow>
                                    (PAM_SUCCESS,
                                     snd (select_fname w (list_name argv)) @ [GetItem] @
                                     snd (lookup_rhost w rhostname) @
                                     [Fopen (fst (select_fname w (list_name argv))),
                                      Fprintf (fst (select_fname w (list_name argv)))
                                        ((if remove then ACTION_REMOVE else ACTION_ADD) @
                                         address @ [newline]),
                                      Fclose (fst (select_fname w (list_name argv))),
                                      Syslog LOG_DEBUG
                                        (if remove then ''removed %s/%s from list %s''
                                         else ''added %s/%s to list %s'')
                                        [ArgStr rhostname, ArgStr address,
                                         ArgStr (list_name argv)]])))))))"
proof -
  have c: "(int (length argv) < 1 \<or> int (length argv) > 2) = (length argv \<noteq> 1 \<and> length argv \<noteq> 2)"
    by arith
  have d: "(int (length argv) = 2) = (length argv = 2)" by arith
  show ?thesis
    unfolding pam_sm_open_session_def Let_def c d list_name_def [symmetric]
    by (simp add: case_prod_beta split: option.splits sum.splits)
qed

lemma success_shape:
  assumes "pam_sm_open_session w argv = (PAM_SUCCESS, evs)"
  shows "\<exists>remove rhostname rhost address.
           (length argv = 1 \<or> length argv = 2) \<and>
           parse_action (argv ! 0) = Some remove \<and>
           get_item_ret w = PAM_SUCCESS \<and>
           get_item_rhost w = Some rhostname \<and>
           fst (lookup_rhost w rhostname) = Inr rhost \<and>
           inet_ntop (h_addrtype rhost) (h_addr rhost) 128 = Inr address \<and>
           fopen_w w (fst (select_fname w (list_name argv))) = None \<and>
           evs = snd (select_fname w (list_name argv)) @ [GetItem] @
                 snd (lookup_rhost w rhostname) @
                 [Fopen (fst (select_fname w (list_name argv))),
                  Fprintf (fst (select_fname w (list_name argv)))
                    ((if remove then ACTION_REMOVE else ACTION_ADD) @ address @ [newline]),
                  Fclose (fst (select_fname w (list_name argv))),
                  Syslog LOG_DEBUG
                    (if remove then ''removed %s/%s from list %s''
                     else ''added %s/%s to list %s'')
                    [ArgStr rhostname, ArgStr address, ArgStr (list_name argv)]]"
  using assms unfolding session_unfold
  by (auto simp: PAM_SUCCESS_def PAM_SESSION_ERR_def split: if_splits option.splits sum.splits)

lemma parse_action_Some:
  "parse_action a = Some remove \<Longrightarrow>
     (a = ACTION_ADD \<or> a = ACTION_REMOVE) \<and> (if remove then ACTION_REMOVE else ACTION_ADD) = a"
  by (auto simp: parse_action_def split: if_splits)

lemma success_writes:
  assumes "pam_sm_open_session w argv = (PAM_SUCCESS, evs)"
  shows "\<exists>address. resolved_address w = Some address \<and>
           (argv ! 0 = ACTION_ADD \<or> argv ! 0 = ACTION_REMOVE) \<and>
           writes evs = [(fst (select_fname w (list_name argv)), argv ! 0 @ address @ [newline])]"
proof -
  from success_shape [OF assms] obtain remove rhostname rhost address where
    p: "parse_action (argv ! 0) = Some remove" and
    h: "get_item_rhost w = Some rhostname" and
    l: "fst (lookup_rhost w rhostname) = Inr rhost" and
    n: "inet_ntop (h_addrtype rhost) (h_addr rhost) 128 = Inr address" and
    e: "evs = snd (select_fname w (list_name argv)) @ [GetItem] @
                 snd (lookup_rhost w rhostname) @
                 [Fopen (fst (select_fname w (list_name argv))),
                  Fprintf (fst (select_fname w (list_name argv)))
                    ((if remove then ACTION_REMOVE else ACTION_ADD) @ address @ [newline]),
                  Fclose (fst (select_fname w (list_name argv))),
                  Syslog LOG_DEBUG
                    (if remove then ''removed %s/%s from list %s''
                     else ''added %s/%s to list %s'')
                    [ArgStr rhostname, ArgStr address, ArgStr (list_name argv)]]"
    by blast
  have r: "resolved_address w = Some address"
    by (simp add: resolved_address_def h l n)
  have m: "(if remove then ACTION_REMOVE else ACTION_ADD) = argv ! 0"
    and a: "argv ! 0 = ACTION_ADD \<or> argv ! 0 = ACTION_REMOVE"
    using parse_action_Some [OF p] by simp_all
  have "writes evs = [(fst (select_fname w (list_name argv)), argv ! 0 @ address @ [newline])]"
    unfolding e m by (simp add: writes_append snd_select_fname writes_lookup)
  with r a show ?thesis by blast
qed

subsection \<open>The directive line\<close>

lemma inet_ntop_example: "inet_ntop AF_INET [203, 0, 113, 5] 128 = Inr ''203.0.113.5''"
  by code_simp

lemma default_paths:
  "snprintf_path PATH_MAX LOCNEW NAME = ''/proc/net/xt_recent/DEFAULT''"
  "snprintf_path PATH_MAX LOCOLD NAME = ''/proc/net/ipt_recent/DEFAULT''"
  by code_simp+

subsection \<open>Argument errors\<close>

lemma parse_action_None:
  "a \<noteq> ''+'' \<Longrightarrow> a \<noteq> ''-'' \<Longrightarrow> parse_action a = None"
  by (simp add: parse_action_def ACTION_ADD_def ACTION_REMOVE_def)

lemma count_error_run:
  "length argv \<noteq> 1 \<and> length argv \<noteq> 2 \<Longrightarrow>
     pam_sm_open_session w argv = (PAM_SESSION_ERR, [ArgumentCountError (int (length argv))])"
  by (simp add: session_unfold ArgumentCountError_def)

lemma mode_error_run:
  "length argv = 1 \<or> length argv = 2 \<Longrightarrow> argv ! 0 \<noteq> ''+'' \<Longrightarrow> argv ! 0 \<noteq> ''-'' \<Longrightarrow>
     pam_sm_open_session w argv = (PAM_SESSION_ERR, [InvalidModeError (argv ! 0)])"
  by (auto simp add: session_unfold InvalidModeError_def parse_action_None
        ACTION_ADD_def ACTION_REMOVE_def)

subsection \<open>The characters of an address text\<close>

lemma of_char_digit: "d < 10 \<Longrightarrow> (of_char (char_of (48 + d)) :: nat) = 48 + d"
  by simp

lemma dec_digits_digits: "list_all is_digit (dec_digits n)"
proof (induction n rule: dec_digits.induct)
  case (1 n)
  show ?case
  proof (cases "n < 10")
    case True
    then show ?thesis
      by (subst dec_digits.simps) (simp add: is_digit_def)
  next
    case False
    have "n mod 10 < 10" by simp
    then have "is_digit (char_of (48 + n mod 10))"
      unfolding is_digit_def by (simp del: of_char_of add: of_char_digit)
    with False 1 show ?thesis
      by (subst dec_digits.simps) simp
  qed
qed

lemma hex_digit_low: "d < 16 \<Longrightarrow> 46 \<le> (of_char (hex_digit d) :: nat)"
  by (simp add: hex_digit_def)

lemma hex_digits_low: "list_all (\<lambda>c. 46 \<le> (of_char c :: nat)) (hex_digits n)"
proof (induction n rule: hex_digits.induct)
  case (1 n)
  show ?case
  proof (cases "n < 16")
    case True
    then show ?thesis
      by (subst hex_digits.simps) (simp add: hex_digit_low)
  next
    case False
    have "n mod 16 < 16" by simp
    then have "46 \<le> (of_char (hex_digit (n mod 16)) :: nat)"
      by (rule hex_digit_low)
    with False 1 show ?thesis
      by (subst hex_digits.simps) simp
  qed
qed

lemma digit_low: "is_digit c \<Longrightarrow> 46 \<le> (of_char c :: nat)"
  by (simp add: is_digit_def)

lemma dec_digits_low: "list_all (\<lambda>c. 46 \<le> (of_char c :: nat)) (dec_digits n)"
  using dec_digits_digits [of n] by (auto simp: list_all_iff digit_low)

lemma inet_ntop4_low: "list_all (\<lambda>c. 46 \<le> (of_char c :: nat)) (inet_ntop4 a b c d)"
  by (simp add: inet_ntop4_def dec_digits_low)

lemma print_words_low:
  "list_all (\<lambda>c. 46 \<le> (of_char c :: nat)) quad \<Longrightarrow>
   list_all (\<lambda>c. 46 \<le> (of_char c :: nat)) (print_words best v4 quad i ws)"
  by (induction ws arbitrary: i) (simp_all add: hex_digits_low)

lemma inet_ntop6_low: "list_all (\<lambda>c. 46 \<le> (of_char c :: nat)) (inet_ntop6 src)"
  by (simp add: inet_ntop6_def Let_def print_words_low inet_ntop4_low)

lemma inet_ntop_no_newline:
  assumes "inet_ntop af src sz = Inr a"
  shows "newline \<notin> set a"
proof -
  have "list_all (\<lambda>c. 46 \<le> (of_char c :: nat)) a"
    using assms inet_ntop4_low inet_ntop6_low
    by (auto simp: inet_ntop_def split: if_splits list.splits)
  moreover have "\<not> 46 \<le> (of_char newline :: nat)"
    by (simp add: newline_def)
  ultimately show ?thesis
    by (auto simp: list_all_iff)
qed

subsection \<open>All or nothing\<close>

lemma opens_append: "opens (xs @ ys) = opens xs @ opens ys"
  by (induction xs) (auto split: event.splits)

lemma errors_append: "errors (xs @ ys) = errors xs @ errors ys"
  by (induction xs) (auto split: event.splits)

lemma lookup_events:
  "snd (lookup_rhost w n) = [Gethostbyname n] \<or>
   (\<exists>p. snd (lookup_rhost w n) = [Gethostbyname n, Gethostbyname p])"
  by (simp add: lookup_rhost_def split: sum.splits option.splits)

lemma opens_lookup: "opens (snd (lookup_rhost w n)) = []"
  using lookup_events [of w n] by auto

lemma errors_lookup: "errors (snd (lookup_rhost w n)) = []"
  using lookup_events [of w n] by auto

lemma failure_shape:
  assumes "pam_sm_open_session w argv = (r, evs)" and "r \<noteq> PAM_SUCCESS"
  shows "r = PAM_SESSION_ERR \<and> writes evs = [] \<and>
         (\<exists>fmt args. last evs = Syslog LOG_ERR fmt args \<and> errors evs = [fmt])"
  using assms unfolding session_unfold
  by (auto simp: writes_append writes_lookup errors_append errors_lookup snd_select_fname
        LOG_ERR_def split: if_splits option.splits sum.splits)

lemma success_iff:
  assumes "pam_sm_open_session w argv = (r, evs)"
  shows "(r = PAM_SUCCESS) =
         ((length argv = 1 \<or> length argv = 2) \<and> (argv ! 0 = ''+'' \<or> argv ! 0 = ''-'') \<and>
          get_item_ret w = PAM_SUCCESS \<and> resolved_address w \<noteq> None \<and>
          fopen_w w (fst (select_fname w (list_name argv))) = None)"
proof
  assume "r = PAM_SUCCESS"
  with assms have s: "pam_sm_open_session w argv = (PAM_SUCCESS, evs)" by simp
  from success_shape [OF s] success_writes [OF s]
  show "(length argv = 1 \<or> length argv = 2) \<and> (argv ! 0 = ''+'' \<or> argv ! 0 = ''-'') \<and>
          get_item_ret w = PAM_SUCCESS \<and> resolved_address w \<noteq> None \<and>
          fopen_w w (fst (select_fname w (list_name argv))) = None"
    by (auto simp: ACTION_ADD_def ACTION_REMOVE_def)
next
  assume c: "(length argv = 1 \<or> length argv = 2) \<and> (argv ! 0 = ''+'' \<or> argv ! 0 = ''-'') \<and>
          get_item_ret w = PAM_SUCCESS \<and> resolved_address w \<noteq> None \<and>
          fopen_w w (fst (select_fname w (list_name argv))) = None"
  then have "parse_action (argv ! 0) \<noteq> None"
    by (auto simp: parse_action_def ACTION_ADD_def ACTION_REMOVE_def)
  with c have "fst (pam_sm_open_session w argv) = PAM_SUCCESS"
    unfolding session_unfold
    by (auto simp: resolved_address_def split: option.splits sum.splits)
  with assms show "r = PAM_SUCCESS" by simp
qed

subsection \<open>The selected path\<close>

lemma probes_append: "probes (xs @ ys) = probes xs @ probes ys"
  by (induction xs) (auto split: event.splits)

lemma probes_lookup: "probes (snd (lookup_rhost w n)) = []"
  using lookup_events [of w n] by auto

lemma run_opens:
  assumes "pam_sm_open_session w argv = (r, evs)"
  shows "opens evs = [] \<or> opens evs = [fst (select_fname w (list_name argv))]"
  using assms unfolding session_unfold
  by (auto simp: opens_append opens_lookup snd_select_fname
        split: if_splits option.splits sum.splits)

lemma run_opens_success:
  assumes "pam_sm_open_session w argv = (PAM_SUCCESS, evs)"
  shows "opens evs = [fst (select_fname w (list_name argv))]"
proof -
  from success_shape [OF assms] obtain remove rhostname and rhost :: hostent and address where
    "evs = snd (select_fname w (list_name argv)) @ [GetItem] @
                 snd (lookup_rhost w rhostname) @
                 [Fopen (fst (select_fname w (list_name argv))),
                  Fprintf (fst (select_fname w (list_name argv)))
                    ((if remove then ACTION_REMOVE else ACTION_ADD) @ address @ [newline]),
                  Fclose (fst (select_fname w (list_name argv))),
                  Syslog LOG_DEBUG
                    (if remove then ''removed %s/%s from list %s''
                     else ''added %s/%s to list %s'')
                    [ArgStr rhostname, ArgStr address, ArgStr (list_name argv)]]"
    by blast
  then show ?thesis
    by (simp add: opens_append opens_lookup snd_select_fname)
qed

lemma run_probes:
  assumes "pam_sm_open_session w argv = (r, evs)"
    and "length argv = 1 \<or> length argv = 2"
    and "argv ! 0 = ''+'' \<or> argv ! 0 = ''-''"
  shows "probes evs = [snprintf_path PATH_MAX LOCNEW (list_name argv)] \<and>
         take 2 evs = [Access (snprintf_path PATH_MAX LOCNEW (list_name argv)), GetItem]"
proof -
  from assms(3) have "parse_action (argv ! 0) \<noteq> None"
    by (auto simp: parse_action_def ACTION_ADD_def ACTION_REMOVE_def)
  with assms(1,2) show ?thesis
    unfolding session_unfold
    by (auto simp: probes_append probes_lookup snd_select_fname
          split: if_splits option.splits sum.splits)
qed

lemma snprintf_fits:
  "length (a @ ''/'' @ b) < sz \<Longrightarrow> snprintf_path sz a b = a @ ''/'' @ b"
  by (simp add: snprintf_path_def)

lemma take_truncates:
  "sz < length s + 1 \<Longrightarrow> length (take (sz - 1) s) = sz - 1 \<and> (0 < sz \<longrightarrow> take (sz - 1) s \<noteq> s)"
proof -
  assume l: "sz < length s + 1"
  have "length (take (sz - 1) s) = min (length s) (sz - 1)"
    by (rule length_take)
  with l have "length (take (sz - 1) s) = sz - 1"
    by arith
  moreover from l have "0 < sz \<longrightarrow> length s \<noteq> sz - 1"
    by arith
  ultimately show ?thesis by metis
qed

lemma snprintf_truncates:
  "sz < length (a @ ''/'' @ b) + 1 \<Longrightarrow>
     length (snprintf_path sz a b) = sz - 1 \<and> (0 < sz \<longrightarrow> snprintf_path sz a b \<noteq> a @ ''/'' @ b)"
  unfolding snprintf_path_def by (rule take_truncates)

lemma old_not_probed:
  "snprintf_path PATH_MAX LOCNEW name \<noteq> LOCOLD @ ''/'' @ name"
  by (simp add: snprintf_path_def PATH_MAX_def LOCNEW_def LOCOLD_def)

lemma select_fname_old_irrelevant:
  "select_fname (w\<lparr>access_F_OK := (access_F_OK w)(LOCOLD @ ''/'' @ name := b)\<rparr>) name =
   select_fname w name"
  using old_not_probed [of name] by (simp add: select_fname_def Let_def)

lemma long_name_length: "length long_name = 4090"
  by (simp add: long_name_def)

lemma long_name_exceeds:
  "PATH_MAX < length (LOCNEW @ ''/'' @ long_name) + 1"
  "PATH_MAX < length (LOCOLD @ ''/'' @ long_name) + 1"
  by (simp_all add: long_name_length PATH_MAX_def LOCNEW_def LOCOLD_def)

subsection \<open>A missing host name\<close>

lemma valid_mode: "a = ''+'' \<or> a = ''-'' \<Longrightarrow> parse_action a \<noteq> None"
  by (auto simp: parse_action_def ACTION_ADD_def ACTION_REMOVE_def)

lemma lookups_append: "lookups (xs @ ys) = lookups xs @ lookups ys"
  by (induction xs) (auto split: event.splits)

lemma lookups_lookup: "\<exists>rest. lookups (snd (lookup_rhost w n)) = n # rest"
  using lookup_events [of w n] by auto

lemma lookup_events_not_missing:
  "list_all (\<lambda>e. \<not> missing_host_error e) (snd (lookup_rhost w n))"
  using lookup_events [of w n] by (auto simp: missing_host_error_def)

lemma run_with_host:
  assumes "length argv = 1 \<or> length argv = 2"
    and "argv ! 0 = ''+'' \<or> argv ! 0 = ''-''"
    and "get_item_ret w = PAM_SUCCESS"
    and "get_item_rhost w = Some rhostname"
  shows "list_all (\<lambda>e. \<not> missing_host_error e) (snd (pam_sm_open_session w argv)) \<and>
         (\<exists>rest. lookups (snd (pam_sm_open_session w argv)) = rhostname # rest)"
  using assms valid_mode [OF assms(2)] lookup_events_not_missing [of w rhostname]
    lookups_lookup [of w rhostname]
  unfolding session_unfold
  by (auto simp: snd_select_fname lookups_append missing_host_error_def
        split: option.splits sum.splits)

lemma run_unresolved_plain:
  assumes "length argv = 1 \<or> length argv = 2"
    and "argv ! 0 = ''+'' \<or> argv ! 0 = ''-''"
    and "get_item_ret w = PAM_SUCCESS"
    and "get_item_rhost w = Some rhostname"
    and "gethostbyname w rhostname = Inl herr"
    and "CHR '':'' \<notin> set rhostname"
  shows "pam_sm_open_session w argv =
           (PAM_SESSION_ERR,
            [Access (snprintf_path PATH_MAX LOCNEW (list_name argv)), GetItem,
             Gethostbyname rhostname, ResolutionError rhostname herr])"
proof -
  have "lookup_rhost w rhostname = (Inl herr, [Gethostbyname rhostname])"
    using assms(5,6) by (simp add: lookup_rhost_def strchr_found_def)
  then show ?thesis
    using assms(1,3,4) valid_mode [OF assms(2)]
    unfolding session_unfold
    by (auto simp: snd_select_fname ResolutionError_def)
qed

subsection \<open>The order of the steps\<close>

lemma before_append:
  "before P Q (xs @ ys) =
     (before P Q xs \<and> before P Q ys \<and> (list_ex Q xs \<longrightarrow> list_all (\<lambda>x. \<not> P x) ys))"
  by (induction xs) auto

lemma lookup_events_kinds:
  "list_all is_lookup (snd (lookup_rhost w n)) \<and> snd (lookup_rhost w n) \<noteq> []"
  using lookup_events [of w n] by auto

lemma before_all_lookups:
  "list_all is_lookup evs \<Longrightarrow>
     before is_probe is_lookup evs \<and> before is_lookup is_write evs \<and>
     before is_probe is_write evs \<and> list_all (\<lambda>x. \<not> is_probe x) evs \<and>
     \<not> list_ex is_write evs"
proof (induction evs)
  case Nil
  then show ?case by simp
next
  case (Cons e evs)
  then show ?case by (cases e) (auto simp: list_all_iff list_ex_iff)
qed

lemma run_order:
  assumes "pam_sm_open_session w argv = (r, evs)"
  shows "before is_probe is_lookup evs \<and> before is_lookup is_write evs \<and>
         before is_probe is_write evs"
proof -
  have k: "before is_probe is_lookup l \<and> before is_lookup is_write l \<and>
           before is_probe is_write l \<and> list_all (\<lambda>x. \<not> is_probe x) l \<and>
           \<not> list_ex is_write l"
    if "l = snd (lookup_rhost w n)" for l n
    using that lookup_events_kinds [of w n] before_all_lookups [of l] by simp
  show ?thesis
    using assms unfolding session_unfold
    by (auto simp: snd_select_fname before_append k split: if_splits option.splits sum.splits)
qed

lemma success_order:
  assumes "pam_sm_open_session w argv = (PAM_SUCCESS, evs)"
  shows "\<exists>p n rest. evs = Access p # GetItem # Gethostbyname n # rest \<and>
           list_ex is_write rest \<and> \<not> list_ex is_probe rest"
proof -
  from success_shape [OF assms] obtain remove rhostname and rhost :: hostent and address where
    e: "evs = snd (select_fname w (list_name argv)) @ [GetItem] @
                 snd (lookup_rhost w rhostname) @
                 [Fopen (fst (select_fname w (list_name argv))),
                  Fprintf (fst (select_fname w (list_name argv)))
                    ((if remove then ACTION_REMOVE else ACTION_ADD) @ address @ [newline]),
                  Fclose (fst (select_fname w (list_name argv))),
                  Syslog LOG_DEBUG
                    (if remove then ''removed %s/%s from list %s''
                     else ''added %s/%s to list %s'')
                    [ArgStr rhostname, ArgStr address, ArgStr (list_name argv)]]"
    by blast
  from lookup_events [of w rhostname] show ?thesis
    unfolding e by (auto simp: snd_select_fname)
qed

subsection \<open>The extraction rules\<close>

lemma take_eq_prefix: "length p = n \<Longrightarrow> (take n s = p) = prefix p s"
proof
  assume "length p = n" "take n s = p"
  then have "s = p @ drop n s" by (metis append_take_drop_id)
  then show "prefix p s" by (metis prefixI)
next
  assume "length p = n" "prefix p s"
  then show "take n s = p" by (auto simp: prefix_def)
qed

lemma strncmp_starts_with:
  "length p = n \<Longrightarrow> strncmp_eq s p n = starts_with s p"
  using take_eq_prefix [of p n s] by (simp add: strncmp_eq_def starts_with_def)

lemma strncasecmp_starts_with_ci:
  "length p = n \<Longrightarrow> strncasecmp_eq s p n = starts_with_ci s p"
  using take_eq_prefix [of "map c_tolower p" n "map c_tolower s"]
  by (simp add: strncasecmp_eq_def starts_with_ci_def take_map)

lemma tolower_other:
  assumes "(of_char d :: nat) < 65"
  shows "(c_tolower c = d) = (c = d)"
proof (cases "65 \<le> (of_char c :: nat) \<and> (of_char c :: nat) \<le> 90")
  case False
  then show ?thesis by (auto simp: c_tolower_def)
next
  case True
  then have "(of_char (c_tolower c) :: nat) = of_char c + 32"
    by (simp add: c_tolower_def)
  with True assms have "c_tolower c \<noteq> d" "c \<noteq> d"
    by auto
  then show ?thesis by simp
qed

lemma starts_with_ci_zero_colon: "starts_with_ci s ''0:'' = starts_with s ''0:''"
proof -
  have z: "(CHR ''0'' = c_tolower c) = (CHR ''0'' = c)" for c
    using tolower_other [of "CHR ''0''" c] by auto
  have k: "(CHR '':'' = c_tolower c) = (CHR '':'' = c)" for c
    using tolower_other [of "CHR '':''" c] by auto
  have m: "map c_tolower ''0:'' = ''0:''"
    by (simp add: c_tolower_def)
  have "prefix ''0:'' (map c_tolower s) = prefix ''0:'' s"
    by (cases s; cases "tl s") (auto simp: z k)
  then show ?thesis
    unfolding starts_with_ci_def starts_with_def m .
qed

lemma rule_colons: "strncmp_eq s ''::'' 2 = starts_with s ''::''"
  by (rule strncmp_starts_with) simp

lemma rule_ffff: "strncasecmp_eq s ''ffff:'' 5 = starts_with_ci s ''ffff:''"
  by (rule strncasecmp_starts_with_ci) simp

lemma rule_zeros: "strncasecmp_eq s ''0:0:0:0:0:'' 10 = starts_with_ci s ''0:0:0:0:0:''"
  by (rule strncasecmp_starts_with_ci) simp

lemma rule_zero: "strncasecmp_eq s ''0:'' 2 = starts_with s ''0:''"
  using strncasecmp_starts_with_ci [of "''0:''" 2 s] by (simp add: starts_with_ci_zero_colon)

lemma strip_lengths:
  "strip ''::'' s = drop 2 s" "strip ''ffff:'' s = drop 5 s"
  "strip ''0:0:0:0:0:'' s = drop 10 s" "strip ''0:'' s = drop 2 s"
  by (simp_all add: strip_def eval_nat_numeral)

lemma extract_ipv4_spec: "extract_ipv4 ident = spec_embedded_ipv4 ident"
  unfolding extract_ipv4_def spec_embedded_ipv4_def
    rule_colons rule_ffff rule_zeros rule_zero strip_lengths Let_def
  by simp

lemma run_lookups:
  assumes "length argv = 1 \<or> length argv = 2"
    and "argv ! 0 = ''+'' \<or> argv ! 0 = ''-''"
    and "get_item_ret w = PAM_SUCCESS"
    and "get_item_rhost w = Some ident"
  shows "lookups (snd (pam_sm_open_session w argv)) = lookups (snd (lookup_rhost w ident))"
  using assms(1,3,4) valid_mode [OF assms(2)]
  unfolding session_unfold
  by (auto simp: snd_select_fname lookups_append split: option.splits sum.splits)

lemma lookup_rhost_retry:
  assumes "gethostbyname w ident = Inl herr" and "CHR '':'' \<in> set ident"
  shows "lookup_rhost w ident =
           (case spec_embedded_ipv4 ident of
              Some rest \<Rightarrow> (gethostbyname w rest, [Gethostbyname ident, Gethostbyname rest])
            | None \<Rightarrow> (Inl herr, [Gethostbyname ident]))"
  using assms
  by (simp add: lookup_rhost_def strchr_found_def extract_ipv4_spec split: option.splits)

subsection \<open>Dotted quads\<close>






lemma fields_nonempty: "dot_fields s \<noteq> []"
  by (induction s) (auto split: list.splits)
















subsection \<open>The family of the host entry\<close>












section \<open>The claims\<close>

subsection \<open>Claim C1\<close>

text \<open>
  Claim C1. Every successful call of \<^verbatim>\<open>pam_sm_open_session\<close> prints exactly one text,
  to the stream opened on the selected path: the mode argument (\<^verbatim>\<open>+\<close> or \<^verbatim>\<open>-\<close>),
  the presentation text of the resolved address and a newline. With one argument the
  list name is \<^verbatim>\<open>DEFAULT\<close>. In particular, with the single argument \<^verbatim>\<open>+\<close> and
  a host name \<^verbatim>\<open>203.0.113.5\<close> that resolves to that address, the pseudo-file of
  \<^verbatim>\<open>DEFAULT\<close> (under the new directory when it exists there, else under the old one)
  receives exactly the line \<^verbatim>\<open>+203.0.113.5\<close> and a newline.
\<close>

theorem C1_directive_line:
  "(pam_sm_open_session w argv = (PAM_SUCCESS, evs) \<longrightarrow>
      (\<exists>address. resolved_address w = Some address \<and>
         (argv ! 0 = ''+'' \<or> argv ! 0 = ''-'') \<and>
         writes evs =
           [(fst (select_fname w (list_name argv)), argv ! 0 @ address @ [newline])])) \<and>
   (length argv' = 1 \<longrightarrow> list_name argv' = ''DEFAULT'') \<and>
   (get_item_ret w' = PAM_SUCCESS \<and> get_item_rhost w' = Some ''203.0.113.5'' \<and>
    gethostbyname w' ''203.0.113.5'' = Inr \<lparr> h_addrtype = AF_INET, h_addr = [203, 0, 113, 5] \<rparr> \<and>
    fopen_w w' (if access_F_OK w' ''/proc/net/xt_recent/DEFAULT''
                then ''/proc/net/xt_recent/DEFAULT'' else ''/proc/net/ipt_recent/DEFAULT'') = None
    \<longrightarrow>
      (\<exists>evs'. pam_sm_open_session w' [''+''] = (PAM_SUCCESS, evs') \<and>
         writes evs' =
           [(if access_F_OK w' ''/proc/net/xt_recent/DEFAULT''
             then ''/proc/net/xt_recent/DEFAULT'' else ''/proc/net/ipt_recent/DEFAULT'',
             ''+203.0.113.5'' @ [newline])]))"
proof (intro conjI impI)
  assume "pam_sm_open_session w argv = (PAM_SUCCESS, evs)"
  from success_writes [OF this]
  show "\<exists>address. resolved_address w = Some address \<and>
         (argv ! 0 = ''+'' \<or> argv ! 0 = ''-'') \<and>
         writes evs =
           [(fst (select_fname w (list_name argv)), argv ! 0 @ address @ [newline])]"
    by (simp add: ACTION_ADD_def ACTION_REMOVE_def)
next
  assume "length argv' = 1"
  then show "list_name argv' = ''DEFAULT''"
    by (simp add: list_name_def NAME_def)
next
  let ?t = "if access_F_OK w' ''/proc/net/xt_recent/DEFAULT''
            then ''/proc/net/xt_recent/DEFAULT'' else ''/proc/net/ipt_recent/DEFAULT''"
  assume h: "get_item_ret w' = PAM_SUCCESS \<and> get_item_rhost w' = Some ''203.0.113.5'' \<and>
    gethostbyname w' ''203.0.113.5'' = Inr \<lparr> h_addrtype = AF_INET, h_addr = [203, 0, 113, 5] \<rparr> \<and>
    fopen_w w' ?t = None"
  have n: "list_name [''+''] = NAME"
    by (simp add: list_name_def)
  have t: "fst (select_fname w' NAME) = ?t"
    by (simp add: fst_select_fname default_paths)
  have l: "lookup_rhost w' ''203.0.113.5'' =
             (Inr \<lparr> h_addrtype = AF_INET, h_addr = [203, 0, 113, 5] \<rparr>,
              [Gethostbyname ''203.0.113.5''])"
    using h by (simp add: lookup_rhost_def)
  have p: "parse_action ''+'' = Some False"
    by (simp add: parse_action_def ACTION_ADD_def)
  have "pam_sm_open_session w' [''+''] =
          (PAM_SUCCESS,
           snd (select_fname w' NAME) @ [GetItem, Gethostbyname ''203.0.113.5'', Fopen ?t,
             Fprintf ?t (''+203.0.113.5'' @ [newline]), Fclose ?t,
             Syslog LOG_DEBUG ''added %s/%s to list %s''
               [ArgStr ''203.0.113.5'', ArgStr ''203.0.113.5'', ArgStr NAME]])"
    using h by (simp add: session_unfold n p t l inet_ntop_example ACTION_ADD_def)
  then show "\<exists>evs'. pam_sm_open_session w' [''+''] = (PAM_SUCCESS, evs') \<and>
         writes evs' = [(?t, ''+203.0.113.5'' @ [newline])]"
    by (simp add: writes_append snd_select_fname)
qed

text \<open>The theorem at work: a removal from \<^verbatim>\<open>MYLIMIT\<close> on a kernel with the old
  directory, for a host given in mixed notation, and the example of the claim.\<close>

theorem C1_directive_line_witness:
  "pam_sm_open_session (legacy_world (Some ''::ffff:203.0.113.5'')) [''-'', ''MYLIMIT''] =
     (PAM_SUCCESS,
      [Access ''/proc/net/xt_recent/MYLIMIT'', GetItem,
       Gethostbyname ''::ffff:203.0.113.5'', Gethostbyname ''203.0.113.5'',
       Fopen ''/proc/net/ipt_recent/MYLIMIT'',
       Fprintf ''/proc/net/ipt_recent/MYLIMIT'' (''-203.0.113.5'' @ [newline]),
       Fclose ''/proc/net/ipt_recent/MYLIMIT'',
       Syslog LOG_DEBUG ''removed %s/%s from list %s''
         [ArgStr ''::ffff:203.0.113.5'', ArgStr ''203.0.113.5'', ArgStr ''MYLIMIT'']]) \<and>
   length [''+''] = 1 \<and> list_name [''+''] = ''DEFAULT'' \<and>
   get_item_ret (example_world (Some ''203.0.113.5'')) = PAM_SUCCESS \<and>
   get_item_rhost (example_world (Some ''203.0.113.5'')) = Some ''203.0.113.5'' \<and>
   gethostbyname (example_world (Some ''203.0.113.5'')) ''203.0.113.5'' =
     Inr \<lparr> h_addrtype = AF_INET, h_addr = [203, 0, 113, 5] \<rparr> \<and>
   fopen_w (example_world (Some ''203.0.113.5'')) ''/proc/net/xt_recent/DEFAULT'' = None \<and>
   writes (snd (pam_sm_open_session (example_world (Some ''203.0.113.5'')) [''+''])) =
     [(''/proc/net/xt_recent/DEFAULT'', ''+203.0.113.5'' @ [newline])] \<and>
   writes (snd (pam_sm_open_session (legacy_world (Some ''::ffff:203.0.113.5''))
                  [''-'', ''MYLIMIT''])) =
     [(''/proc/net/ipt_recent/MYLIMIT'', ''-203.0.113.5'' @ [newline])]"
proof -
  let ?w = "example_world (Some ''203.0.113.5'')"
  let ?l = "legacy_world (Some ''::ffff:203.0.113.5'')"
  let ?evs = "[Access ''/proc/net/xt_recent/MYLIMIT'', GetItem,
       Gethostbyname ''::ffff:203.0.113.5'', Gethostbyname ''203.0.113.5'',
       Fopen ''/proc/net/ipt_recent/MYLIMIT'',
       Fprintf ''/proc/net/ipt_recent/MYLIMIT'' (''-203.0.113.5'' @ [newline]),
       Fclose ''/proc/net/ipt_recent/MYLIMIT'',
       Syslog LOG_DEBUG ''removed %s/%s from list %s''
         [ArgStr ''::ffff:203.0.113.5'', ArgStr ''203.0.113.5'', ArgStr ''MYLIMIT'']]"
  note inst = C1_directive_line [of ?l \<open>[''-'', ''MYLIMIT'']\<close> ?evs \<open>[''+'']\<close> ?w]
  have run: "pam_sm_open_session ?l [''-'', ''MYLIMIT''] = (PAM_SUCCESS, ?evs)"
    by code_simp
  have h1: "get_item_ret ?w = PAM_SUCCESS" by code_simp
  have h2: "get_item_rhost ?w = Some ''203.0.113.5''" by code_simp
  have h3: "gethostbyname ?w ''203.0.113.5'' =
     Inr \<lparr> h_addrtype = AF_INET, h_addr = [203, 0, 113, 5] \<rparr>" by code_simp
  have h4: "fopen_w ?w ''/proc/net/xt_recent/DEFAULT'' = None" by code_simp
  have a: "access_F_OK ?w ''/proc/net/xt_recent/DEFAULT''" by code_simp
  have r: "resolved_address ?l = Some ''203.0.113.5''" by code_simp
  have t: "fst (select_fname ?l (list_name [''-'', ''MYLIMIT''])) = ''/proc/net/ipt_recent/MYLIMIT''"
    by code_simp
  from inst run r t
  have c1: "writes ?evs = [(''/proc/net/ipt_recent/MYLIMIT'', ''-203.0.113.5'' @ [newline])]"
    by simp
  from inst have c2: "list_name [''+''] = ''DEFAULT''" by simp
  from inst h1 h2 h3 h4 a
  have c3: "writes (snd (pam_sm_open_session ?w [''+''])) =
     [(''/proc/net/xt_recent/DEFAULT'', ''+203.0.113.5'' @ [newline])]"
    by auto
  from run h1 h2 h3 h4 c1 c2 c3 show ?thesis by simp
qed

subsection \<open>Claim C2\<close>

text \<open>
  Claim C2. The pointer computed at lines 170--184 is the text the specification's rules
  give (\<open>spec_embedded_ipv4\<close>), for every identifier. When the first lookup fails and
  the identifier contains a colon, the lookup is retried once, on that text, if a rule
  matches; if none does there is no second lookup and the failure of the first one
  stands. Without a colon, or when the first lookup succeeds, there is no retry either.
  The lookups of a whole call are the identifier and then the extracted text, if any.
\<close>

theorem C2_extraction_rules:
  "extract_ipv4 ident = spec_embedded_ipv4 ident \<and>
   (gethostbyname w ident = Inl herr \<and> CHR '':'' \<in> set ident \<longrightarrow>
      lookup_rhost w ident =
        (case spec_embedded_ipv4 ident of
           Some rest \<Rightarrow> (gethostbyname w rest, [Gethostbyname ident, Gethostbyname rest])
         | None \<Rightarrow> (Inl herr, [Gethostbyname ident]))) \<and>
   (gethostbyname w ident = Inl herr \<and> CHR '':'' \<notin> set ident \<longrightarrow>
      lookup_rhost w ident = (Inl herr, [Gethostbyname ident])) \<and>
   (gethostbyname w ident = Inr h \<longrightarrow>
      lookup_rhost w ident = (Inr h, [Gethostbyname ident])) \<and>
   ((length argv = 1 \<or> length argv = 2) \<and> (argv ! 0 = ''+'' \<or> argv ! 0 = ''-'') \<and>
    get_item_ret w = PAM_SUCCESS \<and> get_item_rhost w = Some ident \<and>
    gethostbyname w ident = Inl herr \<and> CHR '':'' \<in> set ident \<longrightarrow>
      lookups (snd (pam_sm_open_session w argv)) =
        ident # (case spec_embedded_ipv4 ident of Some rest \<Rightarrow> [rest] | None \<Rightarrow> []))"
proof (intro conjI impI)
  show "extract_ipv4 ident = spec_embedded_ipv4 ident"
    by (rule extract_ipv4_spec)
next
  assume "gethostbyname w ident = Inl herr \<and> CHR '':'' \<in> set ident"
  then show "lookup_rhost w ident =
        (case spec_embedded_ipv4 ident of
           Some rest \<Rightarrow> (gethostbyname w rest, [Gethostbyname ident, Gethostbyname rest])
         | None \<Rightarrow> (Inl herr, [Gethostbyname ident]))"
    by (simp add: lookup_rhost_retry)
next
  assume "gethostbyname w ident = Inl herr \<and> CHR '':'' \<notin> set ident"
  then show "lookup_rhost w ident = (Inl herr, [Gethostbyname ident])"
    by (simp add: lookup_rhost_def strchr_found_def)
next
  assume "gethostbyname w ident = Inr h"
  then show "lookup_rhost w ident = (Inr h, [Gethostbyname ident])"
    by (simp add: lookup_rhost_def)
next
  assume a: "(length argv = 1 \<or> length argv = 2) \<and> (argv ! 0 = ''+'' \<or> argv ! 0 = ''-'') \<and>
    get_item_ret w = PAM_SUCCESS \<and> get_item_rhost w = Some ident \<and>
    gethostbyname w ident = Inl herr \<and> CHR '':'' \<in> set ident"
  then have "lookups (snd (pam_sm_open_session w argv)) = lookups (snd (lookup_rhost w ident))"
    by (intro run_lookups) simp_all
  also from a have "\<dots> = ident # (case spec_embedded_ipv4 ident of Some rest \<Rightarrow> [rest] | None \<Rightarrow> [])"
    by (simp add: lookup_rhost_retry split: option.splits)
  finally show "lookups (snd (pam_sm_open_session w argv)) =
        ident # (case spec_embedded_ipv4 ident of Some rest \<Rightarrow> [rest] | None \<Rightarrow> [])" .
qed

text \<open>The two identifiers of the specification's examples, which the resolver of the
  example world rejects as they are, are retried as \<^verbatim>\<open>203.0.113.5\<close>; an IPv6 address
  that matches neither rule is not retried.\<close>

theorem C2_extraction_rules_witness:
  "gethostbyname (example_world (Some ''::ffff:203.0.113.5'')) ''::ffff:203.0.113.5'' = Inl 1 \<and>
   CHR '':'' \<in> set ''::ffff:203.0.113.5'' \<and>
   spec_embedded_ipv4 ''::ffff:203.0.113.5'' = Some ''203.0.113.5'' \<and>
   lookups (snd (pam_sm_open_session (example_world (Some ''::ffff:203.0.113.5'')) [''+''])) =
     [''::ffff:203.0.113.5'', ''203.0.113.5''] \<and>
   spec_embedded_ipv4 ''0:0:0:0:0:FFFF:203.0.113.5'' = Some ''203.0.113.5'' \<and>
   lookup_rhost (example_world None) ''0:0:0:0:0:FFFF:203.0.113.5'' =
     (Inr \<lparr> h_addrtype = AF_INET, h_addr = [203, 0, 113, 5] \<rparr>,
      [Gethostbyname ''0:0:0:0:0:FFFF:203.0.113.5'', Gethostbyname ''203.0.113.5'']) \<and>
   spec_embedded_ipv4 ''2001:db8::1'' = None \<and>
   lookup_rhost (example_world None) ''2001:db8::1'' = (Inl 1, [Gethostbyname ''2001:db8::1'']) \<and>
   CHR '':'' \<notin> set ''unknown.example.org'' \<and>
   lookup_rhost (example_world None) ''unknown.example.org'' =
     (Inl 1, [Gethostbyname ''unknown.example.org'']) \<and>
   lookup_rhost (example_world None) ''203.0.113.5'' =
     (Inr \<lparr> h_addrtype = AF_INET, h_addr = [203, 0, 113, 5] \<rparr>,
      [Gethostbyname ''203.0.113.5''])"
proof -
  let ?a = "''::ffff:203.0.113.5''"
  let ?b = "''0:0:0:0:0:FFFF:203.0.113.5''"
  let ?c = "''2001:db8::1''"
  have g: "gethostbyname (example_world x) ?a = Inl 1"
    "gethostbyname (example_world x) ?b = Inl 1"
    "gethostbyname (example_world x) ?c = Inl 1"
    "gethostbyname (example_world x) ''203.0.113.5'' =
       Inr \<lparr> h_addrtype = AF_INET, h_addr = [203, 0, 113, 5] \<rparr>" for x
    by (simp_all add: example_world_def)
  have i: "get_item_ret (example_world x) = PAM_SUCCESS" "get_item_rhost (example_world x) = x" for x
    by (simp_all add: example_world_def)
  have k: "CHR '':'' \<in> set ?a" "CHR '':'' \<in> set ?b" "CHR '':'' \<in> set ?c"
    by simp_all
  have s: "spec_embedded_ipv4 ?a = Some ''203.0.113.5''"
    "spec_embedded_ipv4 ?b = Some ''203.0.113.5''"
    "spec_embedded_ipv4 ?c = None"
    by code_simp+
  have v: "length [''+''] = 1 \<or> length [''+''] = 2" "[''+''] ! 0 = ''+'' \<or> [''+''] ! 0 = ''-''"
    by simp_all
  from C2_extraction_rules [of ?a "example_world (Some ?a)" 1 _ "[''+'']"] g i k v
  have c1: "lookups (snd (pam_sm_open_session (example_world (Some ?a)) [''+''])) =
              [?a, ''203.0.113.5'']"
    unfolding s by simp
  from C2_extraction_rules [of ?b "example_world None" 1] g k
  have c2: "lookup_rhost (example_world None) ?b =
     (Inr \<lparr> h_addrtype = AF_INET, h_addr = [203, 0, 113, 5] \<rparr>,
      [Gethostbyname ?b, Gethostbyname ''203.0.113.5''])"
    unfolding s by simp
  from C2_extraction_rules [of ?c "example_world None" 1] g k
  have c3: "lookup_rhost (example_world None) ?c = (Inl 1, [Gethostbyname ?c])"
    unfolding s by simp
  have gu: "gethostbyname (example_world None) ''unknown.example.org'' = Inl 1"
    by (simp add: example_world_def)
  have ku: "CHR '':'' \<notin> set ''unknown.example.org''"
    by simp
  from C2_extraction_rules [of "''unknown.example.org''" "example_world None" 1] gu ku
  have c4: "lookup_rhost (example_world None) ''unknown.example.org'' =
     (Inl 1, [Gethostbyname ''unknown.example.org''])"
    by blast
  from C2_extraction_rules [of "''203.0.113.5''" "example_world None" _
      "\<lparr> h_addrtype = AF_INET, h_addr = [203, 0, 113, 5] \<rparr>"] g
  have c5: "lookup_rhost (example_world None) ''203.0.113.5'' =
     (Inr \<lparr> h_addrtype = AF_INET, h_addr = [203, 0, 113, 5] \<rparr>,
      [Gethostbyname ''203.0.113.5''])"
    by blast
  from g k s c1 c2 c3 ku c4 c5 show ?thesis by simp
qed

subsection \<open>Claim C3\<close>

text \<open>
  Claim C3. Every call either succeeds, having opened one file and printed exactly one
  line into it (a text without newline followed by a newline) and logged no error, or
  fails with \<^verbatim>\<open>PAM_SESSION_ERR\<close> and no write at all, the one error record being the
  last thing it does. It succeeds exactly when none of the error conditions holds:
  the argument count is 1 or 2, the mode is \<^verbatim>\<open>+\<close> or \<^verbatim>\<open>-\<close>, \<^verbatim>\<open>PAM_RHOST\<close> is
  available, it resolves to an address with a presentation text, and the open succeeds.
\<close>

theorem C3_all_or_nothing:
  assumes "pam_sm_open_session w argv = (r, evs)"
  shows "((r = PAM_SUCCESS \<and> errors evs = [] \<and>
           (\<exists>p line. opens evs = [p] \<and> writes evs = [(p, line @ [newline])] \<and>
              newline \<notin> set line)) \<or>
          (r = PAM_SESSION_ERR \<and> writes evs = [] \<and>
           (\<exists>fmt args. last evs = Syslog LOG_ERR fmt args \<and> errors evs = [fmt]))) \<and>
         ((r = PAM_SUCCESS) =
          ((length argv = 1 \<or> length argv = 2) \<and> (argv ! 0 = ''+'' \<or> argv ! 0 = ''-'') \<and>
           get_item_ret w = PAM_SUCCESS \<and> get_item_rhost w \<noteq> None \<and>
           resolved_address w \<noteq> None \<and>
           fopen_w w (fst (select_fname w (list_name argv))) = None))"
proof (intro conjI)
  show "(r = PAM_SUCCESS \<and> errors evs = [] \<and>
           (\<exists>p line. opens evs = [p] \<and> writes evs = [(p, line @ [newline])] \<and>
              newline \<notin> set line)) \<or>
          (r = PAM_SESSION_ERR \<and> writes evs = [] \<and>
           (\<exists>fmt args. last evs = Syslog LOG_ERR fmt args \<and> errors evs = [fmt]))"
  proof (cases "r = PAM_SUCCESS")
    case False
    with failure_shape [OF assms] show ?thesis by blast
  next
    case True
    with assms have s: "pam_sm_open_session w argv = (PAM_SUCCESS, evs)" by simp
    from success_shape [OF s] obtain remove rhostname and rhost :: hostent and address where
      n: "inet_ntop (h_addrtype rhost) (h_addr rhost) 128 = Inr address" and
      e: "evs = snd (select_fname w (list_name argv)) @ [GetItem] @
                 snd (lookup_rhost w rhostname) @
                 [Fopen (fst (select_fname w (list_name argv))),
                  Fprintf (fst (select_fname w (list_name argv)))
                    ((if remove then ACTION_REMOVE else ACTION_ADD) @ address @ [newline]),
                  Fclose (fst (select_fname w (list_name argv))),
                  Syslog LOG_DEBUG
                    (if remove then ''removed %s/%s from list %s''
                     else ''added %s/%s to list %s'')
                    [ArgStr rhostname, ArgStr address, ArgStr (list_name argv)]]"
      by blast
    let ?p = "fst (select_fname w (list_name argv))"
    let ?line = "(if remove then ACTION_REMOVE else ACTION_ADD) @ address"
    have "errors evs = []"
      unfolding e
      by (simp add: errors_append errors_lookup snd_select_fname LOG_ERR_def LOG_DEBUG_def)
    moreover have "opens evs = [?p]"
      unfolding e by (simp add: opens_append opens_lookup snd_select_fname)
    moreover have "writes evs = [(?p, ?line @ [newline])]"
      unfolding e by (simp add: writes_append writes_lookup snd_select_fname)
    moreover have "newline \<notin> set ?line"
      using inet_ntop_no_newline [OF n]
      by (simp add: ACTION_ADD_def ACTION_REMOVE_def newline_def)
    ultimately show ?thesis using True by blast
  qed
next
  have "resolved_address w \<noteq> None \<Longrightarrow> get_item_rhost w \<noteq> None"
    by (auto simp: resolved_address_def split: option.splits)
  with success_iff [OF assms]
  show "(r = PAM_SUCCESS) =
          ((length argv = 1 \<or> length argv = 2) \<and> (argv ! 0 = ''+'' \<or> argv ! 0 = ''-'') \<and>
           get_item_ret w = PAM_SUCCESS \<and> get_item_rhost w \<noteq> None \<and>
           resolved_address w \<noteq> None \<and>
           fopen_w w (fst (select_fname w (list_name argv))) = None)"
    by blast
qed

text \<open>A successful call and a failing one (a host the resolver does not know).\<close>

theorem C3_all_or_nothing_witness:
  "pam_sm_open_session (example_world (Some ''203.0.113.5'')) [''+''] =
     (PAM_SUCCESS,
      [Access ''/proc/net/xt_recent/DEFAULT'', GetItem, Gethostbyname ''203.0.113.5'',
       Fopen ''/proc/net/xt_recent/DEFAULT'',
       Fprintf ''/proc/net/xt_recent/DEFAULT'' (''+203.0.113.5'' @ [newline]),
       Fclose ''/proc/net/xt_recent/DEFAULT'',
       Syslog LOG_DEBUG ''added %s/%s to list %s''
         [ArgStr ''203.0.113.5'', ArgStr ''203.0.113.5'', ArgStr ''DEFAULT'']]) \<and>
   resolved_address (example_world (Some ''203.0.113.5'')) \<noteq> None \<and>
   pam_sm_open_session (example_world (Some ''unknown.example.org'')) [''+''] =
     (PAM_SESSION_ERR,
      [Access ''/proc/net/xt_recent/DEFAULT'', GetItem, Gethostbyname ''unknown.example.org'',
       ResolutionError ''unknown.example.org'' 1]) \<and>
   writes [Access ''/proc/net/xt_recent/DEFAULT'', GetItem,
           Gethostbyname ''unknown.example.org'',
           ResolutionError ''unknown.example.org'' 1] = [] \<and>
   resolved_address (example_world (Some ''unknown.example.org'')) = None"
proof -
  let ?e1 = "[Access ''/proc/net/xt_recent/DEFAULT'', GetItem, Gethostbyname ''203.0.113.5'',
       Fopen ''/proc/net/xt_recent/DEFAULT'',
       Fprintf ''/proc/net/xt_recent/DEFAULT'' (''+203.0.113.5'' @ [newline]),
       Fclose ''/proc/net/xt_recent/DEFAULT'',
       Syslog LOG_DEBUG ''added %s/%s to list %s''
         [ArgStr ''203.0.113.5'', ArgStr ''203.0.113.5'', ArgStr ''DEFAULT'']]"
  let ?e2 = "[Access ''/proc/net/xt_recent/DEFAULT'', GetItem,
       Gethostbyname ''unknown.example.org'', ResolutionError ''unknown.example.org'' 1]"
  have run1: "pam_sm_open_session (example_world (Some ''203.0.113.5'')) [''+''] =
     (PAM_SUCCESS, ?e1)"
    by code_simp
  have run2: "pam_sm_open_session (example_world (Some ''unknown.example.org'')) [''+''] =
     (PAM_SESSION_ERR, ?e2)"
    by code_simp
  have ne: "PAM_SESSION_ERR \<noteq> PAM_SUCCESS"
    by (simp add: PAM_SESSION_ERR_def PAM_SUCCESS_def)
  have len: "length [''+''] = 1" "[''+''] ! 0 = ''+''"
    by simp_all
  have g: "get_item_ret (example_world (Some ''unknown.example.org'')) = PAM_SUCCESS"
    "get_item_rhost (example_world (Some ''unknown.example.org'')) \<noteq> None"
    by (simp_all add: example_world_def)
  have f: "fopen_w (example_world (Some ''unknown.example.org''))
             (fst (select_fname (example_world (Some ''unknown.example.org'')) (list_name [''+'']))) = None"
    by (simp add: example_world_def)
  from C3_all_or_nothing [OF run1]
  have c1: "resolved_address (example_world (Some ''203.0.113.5'')) \<noteq> None"
    by simp
  from C3_all_or_nothing [OF run2] ne
  have c2: "writes ?e2 = []"
    by blast
  from C3_all_or_nothing [OF run2] ne len g f
  have c3: "resolved_address (example_world (Some ''unknown.example.org'')) = None"
    by simp
  from run1 run2 c1 c2 c3 show ?thesis by simp
qed

subsection \<open>Claim C4\<close>





subsection \<open>Claim C5\<close>

text \<open>
  Claim C5, as stated, for every list name: the target is the new path when an entry
  exists there and the old path otherwise. It fails for a name too long for the buffer:
  on a kernel with the old directory only and the 4090-character name, the call
  succeeds, nothing exists at the new path, and the file opened is not the old
  directory's path for that name (it is the path cut to 4095 characters).
\<close>

theorem C5_counterexample:
  "fst (pam_sm_open_session (legacy_world (Some ''203.0.113.5'')) [''+'', long_name]) =
     PAM_SUCCESS \<and>
   \<not> access_F_OK (legacy_world (Some ''203.0.113.5'')) (LOCNEW @ ''/'' @ long_name) \<and>
   list_name [''+'', long_name] = long_name \<and>
   opens (snd (pam_sm_open_session (legacy_world (Some ''203.0.113.5'')) [''+'', long_name])) \<noteq>
     [LOCOLD @ ''/'' @ long_name]"
proof -
  let ?w = "legacy_world (Some ''203.0.113.5'')"
  let ?argv = "[''+'', long_name]"
  have n: "list_name ?argv = long_name"
    by (simp add: list_name_def)
  have x: "\<not> access_F_OK ?w y" for y
    by (simp add: legacy_world_def example_world_def)
  have g: "get_item_ret ?w = PAM_SUCCESS" by code_simp
  have a: "resolved_address ?w \<noteq> None" by code_simp
  have f: "fopen_w ?w y = None" for y
    by (simp add: legacy_world_def example_world_def)
  have run: "pam_sm_open_session ?w ?argv =
               (fst (pam_sm_open_session ?w ?argv), snd (pam_sm_open_session ?w ?argv))"
    by simp
  from success_iff [OF run] g a f
  have s: "fst (pam_sm_open_session ?w ?argv) = PAM_SUCCESS"
    by simp
  then have "pam_sm_open_session ?w ?argv = (PAM_SUCCESS, snd (pam_sm_open_session ?w ?argv))"
    by (simp add: prod_eq_iff)
  from run_opens_success [OF this]
  have o: "opens (snd (pam_sm_open_session ?w ?argv)) = [snprintf_path PATH_MAX LOCOLD long_name]"
    unfolding n by (simp add: fst_select_fname x)
  have "snprintf_path PATH_MAX LOCOLD long_name \<noteq> LOCOLD @ ''/'' @ long_name"
    using snprintf_truncates [OF long_name_exceeds(2)] by (simp add: PATH_MAX_def)
  with o s x n show ?thesis by simp
qed

text \<open>
  Claim C5, amended: for every list name short enough for base, slash and name to fit
  the buffer with its terminator. If an entry exists at the new path, that path is the
  target; otherwise the old path is, whether or not anything exists there (the old path
  is never probed, and changing what \<^verbatim>\<open>access\<close> would answer for it changes nothing).
  The selection logs no error and probes one path only; the file a call opens, if it
  opens one, is the selected path, and the line of a successful call goes there.
\<close>

theorem C5_path_selection:
  "(length (LOCNEW @ ''/'' @ name) < PATH_MAX \<and> access_F_OK w (LOCNEW @ ''/'' @ name) \<longrightarrow>
      fst (select_fname w name) = LOCNEW @ ''/'' @ name) \<and>
   (length (LOCOLD @ ''/'' @ name) < PATH_MAX \<and> \<not> access_F_OK w (LOCNEW @ ''/'' @ name) \<longrightarrow>
      fst (select_fname w name) = LOCOLD @ ''/'' @ name) \<and>
   select_fname (w\<lparr>access_F_OK := (access_F_OK w)(LOCOLD @ ''/'' @ name := b)\<rparr>) name =
     select_fname w name \<and>
   errors (snd (select_fname w name)) = [] \<and>
   (length (LOCNEW @ ''/'' @ name) < PATH_MAX \<longrightarrow>
      probes (snd (select_fname w name)) = [LOCNEW @ ''/'' @ name]) \<and>
   (pam_sm_open_session w argv = (r, evs) \<longrightarrow>
      opens evs = [] \<or> opens evs = [fst (select_fname w (list_name argv))]) \<and>
   (pam_sm_open_session w argv = (PAM_SUCCESS, evs') \<longrightarrow>
      map fst (writes evs') = [fst (select_fname w (list_name argv))])"
proof (intro conjI impI)
  assume "length (LOCNEW @ ''/'' @ name) < PATH_MAX \<and> access_F_OK w (LOCNEW @ ''/'' @ name)"
  then show "fst (select_fname w name) = LOCNEW @ ''/'' @ name"
    by (simp add: fst_select_fname snprintf_fits)
next
  assume h: "length (LOCOLD @ ''/'' @ name) < PATH_MAX \<and> \<not> access_F_OK w (LOCNEW @ ''/'' @ name)"
  then have "length (LOCNEW @ ''/'' @ name) < PATH_MAX"
    by (simp add: LOCNEW_def LOCOLD_def)
  with h show "fst (select_fname w name) = LOCOLD @ ''/'' @ name"
    by (simp add: fst_select_fname snprintf_fits)
next
  show "select_fname (w\<lparr>access_F_OK := (access_F_OK w)(LOCOLD @ ''/'' @ name := b)\<rparr>) name =
          select_fname w name"
    by (rule select_fname_old_irrelevant)
next
  show "errors (snd (select_fname w name)) = []"
    by (simp add: snd_select_fname)
next
  assume "length (LOCNEW @ ''/'' @ name) < PATH_MAX"
  then show "probes (snd (select_fname w name)) = [LOCNEW @ ''/'' @ name]"
    by (simp add: snd_select_fname snprintf_fits)
next
  assume "pam_sm_open_session w argv = (r, evs)"
  then show "opens evs = [] \<or> opens evs = [fst (select_fname w (list_name argv))]"
    by (rule run_opens)
next
  assume "pam_sm_open_session w argv = (PAM_SUCCESS, evs')"
  from success_writes [OF this]
  show "map fst (writes evs') = [fst (select_fname w (list_name argv))]"
    by auto
qed

text \<open>On a kernel with the new directory where only \<^verbatim>\<open>DEFAULT\<close> exists: that list
  is reached under the new directory, \<^verbatim>\<open>MYLIMIT\<close> under the old one.\<close>

theorem C5_path_selection_witness:
  "length (LOCNEW @ ''/'' @ ''DEFAULT'') < PATH_MAX \<and>
   access_F_OK (example_world (Some ''203.0.113.5'')) (LOCNEW @ ''/'' @ ''DEFAULT'') \<and>
   fst (select_fname (example_world (Some ''203.0.113.5'')) ''DEFAULT'') =
     ''/proc/net/xt_recent/DEFAULT'' \<and>
   length (LOCOLD @ ''/'' @ ''MYLIMIT'') < PATH_MAX \<and>
   \<not> access_F_OK (example_world (Some ''203.0.113.5'')) (LOCNEW @ ''/'' @ ''MYLIMIT'') \<and>
   fst (select_fname (example_world (Some ''203.0.113.5'')) ''MYLIMIT'') =
     ''/proc/net/ipt_recent/MYLIMIT'' \<and>
   probes (snd (select_fname (example_world (Some ''203.0.113.5'')) ''MYLIMIT'')) =
     [''/proc/net/xt_recent/MYLIMIT''] \<and>
   pam_sm_open_session (example_world (Some ''203.0.113.5'')) [''-'', ''MYLIMIT''] =
     (PAM_SUCCESS,
      [Access ''/proc/net/xt_recent/MYLIMIT'', GetItem, Gethostbyname ''203.0.113.5'',
       Fopen ''/proc/net/ipt_recent/MYLIMIT'',
       Fprintf ''/proc/net/ipt_recent/MYLIMIT'' (''-203.0.113.5'' @ [newline]),
       Fclose ''/proc/net/ipt_recent/MYLIMIT'',
       Syslog LOG_DEBUG ''removed %s/%s from list %s''
         [ArgStr ''203.0.113.5'', ArgStr ''203.0.113.5'', ArgStr ''MYLIMIT'']]) \<and>
   map fst (writes
      [Access ''/proc/net/xt_recent/MYLIMIT'', GetItem, Gethostbyname ''203.0.113.5'',
       Fopen ''/proc/net/ipt_recent/MYLIMIT'',
       Fprintf ''/proc/net/ipt_recent/MYLIMIT'' (''-203.0.113.5'' @ [newline]),
       Fclose ''/proc/net/ipt_recent/MYLIMIT'',
       Syslog LOG_DEBUG ''removed %s/%s from list %s''
         [ArgStr ''203.0.113.5'', ArgStr ''203.0.113.5'', ArgStr ''MYLIMIT'']]) =
     [''/proc/net/ipt_recent/MYLIMIT'']"
proof -
  let ?w = "example_world (Some ''203.0.113.5'')"
  let ?argv = "[''-'', ''MYLIMIT'']"
  let ?evs = "[Access ''/proc/net/xt_recent/MYLIMIT'', GetItem, Gethostbyname ''203.0.113.5'',
       Fopen ''/proc/net/ipt_recent/MYLIMIT'',
       Fprintf ''/proc/net/ipt_recent/MYLIMIT'' (''-203.0.113.5'' @ [newline]),
       Fclose ''/proc/net/ipt_recent/MYLIMIT'',
       Syslog LOG_DEBUG ''removed %s/%s from list %s''
         [ArgStr ''203.0.113.5'', ArgStr ''203.0.113.5'', ArgStr ''MYLIMIT'']]"
  have p: "LOCNEW @ ''/'' @ ''DEFAULT'' = ''/proc/net/xt_recent/DEFAULT''"
    "LOCNEW @ ''/'' @ ''MYLIMIT'' = ''/proc/net/xt_recent/MYLIMIT''"
    "LOCOLD @ ''/'' @ ''MYLIMIT'' = ''/proc/net/ipt_recent/MYLIMIT''"
    by (simp_all add: LOCNEW_def LOCOLD_def)
  have h1: "length (LOCNEW @ ''/'' @ ''DEFAULT'') < PATH_MAX"
    by (simp add: LOCNEW_def PATH_MAX_def)
  have h2: "access_F_OK ?w (LOCNEW @ ''/'' @ ''DEFAULT'')"
    by (simp add: example_world_def LOCNEW_def)
  have h3: "length (LOCOLD @ ''/'' @ ''MYLIMIT'') < PATH_MAX"
    by (simp add: LOCOLD_def PATH_MAX_def)
  have h4: "\<not> access_F_OK ?w (LOCNEW @ ''/'' @ ''MYLIMIT'')"
    by (simp add: example_world_def LOCNEW_def)
  have h5: "length (LOCNEW @ ''/'' @ ''MYLIMIT'') < PATH_MAX"
    by (simp add: LOCNEW_def PATH_MAX_def)
  have run: "pam_sm_open_session ?w ?argv = (PAM_SUCCESS, ?evs)"
    by code_simp
  have n: "list_name ?argv = ''MYLIMIT''"
    by (simp add: list_name_def)
  from C5_path_selection [of "''DEFAULT''" ?w] h1 h2
  have c1: "fst (select_fname ?w ''DEFAULT'') = ''/proc/net/xt_recent/DEFAULT''"
    unfolding p by blast
  note inst = C5_path_selection [of "''MYLIMIT''" ?w _ ?argv _ _ ?evs]
  from inst h3 h4
  have c2: "fst (select_fname ?w ''MYLIMIT'') = ''/proc/net/ipt_recent/MYLIMIT''"
    unfolding p by blast
  from inst h5
  have c3: "probes (snd (select_fname ?w ''MYLIMIT'')) = [''/proc/net/xt_recent/MYLIMIT'']"
    unfolding p by blast
  from inst run
  have "map fst (writes ?evs) = [fst (select_fname ?w (list_name ?argv))]"
    by blast
  then have c4: "map fst (writes ?evs) = [''/proc/net/ipt_recent/MYLIMIT'']"
    unfolding n c2 .
  from h1 h2 h3 h4 c1 c2 c3 c4 run show ?thesis
    by blast
qed

subsection \<open>Claim C6\<close>

text \<open>
  Claim C6, as stated: every call with an argument count other than 1 or 2 fails with
  the argument-count error, and every call whose first argument is neither \<^verbatim>\<open>+\<close>
  nor \<^verbatim>\<open>-\<close> fails with the invalid-mode error. The second half fails where the
  first applies: the count is tested first (line 110), so a call with three arguments
  and the mode word \<^verbatim>\<open>add\<close> returns at line 113 with the argument-count record, and
  the mode test of lines 116--129 is never reached.
\<close>

theorem C6_counterexample:
  "[''add'', ''a'', ''b''] ! 0 \<noteq> ''+'' \<and> [''add'', ''a'', ''b''] ! 0 \<noteq> ''-'' \<and>
   pam_sm_open_session (example_world (Some ''203.0.113.5'')) [''add'', ''a'', ''b''] =
     (PAM_SESSION_ERR, [ArgumentCountError 3]) \<and>
   ArgumentCountError 3 \<noteq> InvalidModeError ''add'' \<and>
   pam_sm_open_session (example_world (Some ''203.0.113.5'')) [''add'', ''a'', ''b''] \<noteq>
     (PAM_SESSION_ERR, [InvalidModeError ''add''])"
  by code_simp

text \<open>
  Claim C6, amended. A call with an argument count other than 1 or 2 fails with the
  argument-count record and writes nothing; a call whose argument count is 1 or 2 and
  whose first argument is neither \<^verbatim>\<open>+\<close> nor \<^verbatim>\<open>-\<close> fails with the invalid-mode
  record and writes nothing. Whatever the count, a call without a valid first argument
  returns \<^verbatim>\<open>PAM_SESSION_ERR\<close> and neither opens nor writes a file.
\<close>

theorem C6_argument_errors:
  "(length argv \<noteq> 1 \<and> length argv \<noteq> 2 \<longrightarrow>
      pam_sm_open_session w argv = (PAM_SESSION_ERR, [ArgumentCountError (int (length argv))]) \<and>
      writes (snd (pam_sm_open_session w argv)) = [] \<and>
      opens (snd (pam_sm_open_session w argv)) = []) \<and>
   ((length argv = 1 \<or> length argv = 2) \<and> argv ! 0 \<noteq> ''+'' \<and> argv ! 0 \<noteq> ''-'' \<longrightarrow>
      pam_sm_open_session w argv = (PAM_SESSION_ERR, [InvalidModeError (argv ! 0)]) \<and>
      writes (snd (pam_sm_open_session w argv)) = [] \<and>
      opens (snd (pam_sm_open_session w argv)) = []) \<and>
   (argv = [] \<or> (argv ! 0 \<noteq> ''+'' \<and> argv ! 0 \<noteq> ''-'') \<longrightarrow>
      fst (pam_sm_open_session w argv) = PAM_SESSION_ERR \<and>
      writes (snd (pam_sm_open_session w argv)) = [] \<and>
      opens (snd (pam_sm_open_session w argv)) = [])"
proof (intro conjI impI)
  assume c: "length argv \<noteq> 1 \<and> length argv \<noteq> 2"
  show "pam_sm_open_session w argv = (PAM_SESSION_ERR, [ArgumentCountError (int (length argv))])"
    by (rule count_error_run [OF c])
  show "writes (snd (pam_sm_open_session w argv)) = []"
    by (simp add: count_error_run [OF c] ArgumentCountError_def)
  show "opens (snd (pam_sm_open_session w argv)) = []"
    by (simp add: count_error_run [OF c] ArgumentCountError_def)
next
  assume m: "(length argv = 1 \<or> length argv = 2) \<and> argv ! 0 \<noteq> ''+'' \<and> argv ! 0 \<noteq> ''-''"
  then have r: "pam_sm_open_session w argv = (PAM_SESSION_ERR, [InvalidModeError (argv ! 0)])"
    by (intro mode_error_run) simp_all
  show "pam_sm_open_session w argv = (PAM_SESSION_ERR, [InvalidModeError (argv ! 0)])"
    by (rule r)
  show "writes (snd (pam_sm_open_session w argv)) = []"
    by (simp add: r InvalidModeError_def)
  show "opens (snd (pam_sm_open_session w argv)) = []"
    by (simp add: r InvalidModeError_def)
next
  assume a: "argv = [] \<or> (argv ! 0 \<noteq> ''+'' \<and> argv ! 0 \<noteq> ''-'')"
  have "pam_sm_open_session w argv = (PAM_SESSION_ERR, [ArgumentCountError (int (length argv))]) \<or>
        pam_sm_open_session w argv = (PAM_SESSION_ERR, [InvalidModeError (argv ! 0)])"
  proof (cases "length argv = 1 \<or> length argv = 2")
    case True
    with a have "argv ! 0 \<noteq> ''+''" "argv ! 0 \<noteq> ''-''" by auto
    with True show ?thesis by (simp add: mode_error_run)
  next
    case False
    then show ?thesis by (simp add: count_error_run)
  qed
  then show "fst (pam_sm_open_session w argv) = PAM_SESSION_ERR"
    and "writes (snd (pam_sm_open_session w argv)) = []"
    and "opens (snd (pam_sm_open_session w argv)) = []"
    by (auto simp: ArgumentCountError_def InvalidModeError_def)
qed

text \<open>Three arguments, a bad mode word, and no argument at all.\<close>

theorem C6_argument_errors_witness:
  "length [''+'', ''MYLIMIT'', ''extra''] \<noteq> 1 \<and> length [''+'', ''MYLIMIT'', ''extra''] \<noteq> 2 \<and>
   pam_sm_open_session (example_world (Some ''203.0.113.5'')) [''+'', ''MYLIMIT'', ''extra''] =
     (PAM_SESSION_ERR, [ArgumentCountError 3]) \<and>
   length [''add''] = 1 \<and> [''add''] ! 0 \<noteq> ''+'' \<and> [''add''] ! 0 \<noteq> ''-'' \<and>
   pam_sm_open_session (example_world (Some ''203.0.113.5'')) [''add''] =
     (PAM_SESSION_ERR, [InvalidModeError ''add'']) \<and>
   writes (snd (pam_sm_open_session (example_world (Some ''203.0.113.5'')) [''add''])) = [] \<and>
   fst (pam_sm_open_session (example_world (Some ''203.0.113.5'')) []) = PAM_SESSION_ERR"
proof -
  let ?w = "example_world (Some ''203.0.113.5'')"
  have h1: "length [''+'', ''MYLIMIT'', ''extra''] \<noteq> 1 \<and> length [''+'', ''MYLIMIT'', ''extra''] \<noteq> 2"
    by simp
  have h2: "(length [''add''] = 1 \<or> length [''add''] = 2) \<and> [''add''] ! 0 \<noteq> ''+'' \<and> [''add''] ! 0 \<noteq> ''-''"
    by simp
  from C6_argument_errors [of "[''+'', ''MYLIMIT'', ''extra'']" "?w"] h1
  have c1: "pam_sm_open_session ?w [''+'', ''MYLIMIT'', ''extra''] =
     (PAM_SESSION_ERR, [ArgumentCountError 3])"
    by simp
  from C6_argument_errors [of "[''add'']" "?w"] h2
  have c2: "pam_sm_open_session ?w [''add''] = (PAM_SESSION_ERR, [InvalidModeError ''add''])"
    and c3: "writes (snd (pam_sm_open_session ?w [''add''])) = []"
    by (simp_all add: InvalidModeError_def)
  from C6_argument_errors [of "[]" "?w"]
  have c4: "fst (pam_sm_open_session ?w []) = PAM_SESSION_ERR"
    by simp
  from h1 h2 c1 c2 c3 c4 show ?thesis by simp
qed

subsection \<open>Claim C7\<close>

text \<open>
  Claim C7, as stated, for an identifier that is absent or empty. It fails for the empty
  one: with \<^verbatim>\<open>PAM_RHOST\<close> set to the empty string the call does not stop at line 154
  (the pointer is not NULL); it hands the empty name to the resolver and fails with the
  lookup error, not with a missing-host error.
\<close>

theorem C7_counterexample:
  "get_item_rhost (example_world (Some [])) = Some [] \<and>
   pam_sm_open_session (example_world (Some [])) [''+''] =
     (PAM_SESSION_ERR,
      [Access ''/proc/net/xt_recent/DEFAULT'', GetItem, Gethostbyname [],
       ResolutionError [] 1]) \<and>
   \<not> missing_host_error (ResolutionError [] 1) \<and>
   \<not> list_ex missing_host_error
       (snd (pam_sm_open_session (example_world (Some [])) [''+'']))"
  by code_simp

text \<open>
  Claim C7, amended: for every call with valid arguments in which the identifier is
  absent (\<^verbatim>\<open>pam_get_item\<close> fails, or succeeds with a NULL pointer), the call fails with
  the missing-host error and writes nothing. An identifier that is present, the empty
  string included, is handed to the resolver and never gives a missing-host error; an
  empty one the resolver rejects fails with the lookup error, without a write.
\<close>

theorem C7_missing_host:
  assumes "length argv = 1 \<or> length argv = 2"
    and "argv ! 0 = ''+'' \<or> argv ! 0 = ''-''"
  shows "(get_item_ret w = PAM_SUCCESS \<and> get_item_rhost w = None \<longrightarrow>
            pam_sm_open_session w argv =
              (PAM_SESSION_ERR,
               [Access (snprintf_path PATH_MAX LOCNEW (list_name argv)), GetItem,
                MissingHostError]) \<and>
            missing_host_error MissingHostError \<and>
            writes (snd (pam_sm_open_session w argv)) = []) \<and>
         (get_item_ret w \<noteq> PAM_SUCCESS \<longrightarrow>
            pam_sm_open_session w argv =
              (PAM_SESSION_ERR,
               [Access (snprintf_path PATH_MAX LOCNEW (list_name argv)), GetItem,
                GetItemError (pam_strerror w (get_item_ret w))]) \<and>
            missing_host_error (GetItemError (pam_strerror w (get_item_ret w))) \<and>
            writes (snd (pam_sm_open_session w argv)) = []) \<and>
         (get_item_ret w = PAM_SUCCESS \<and> get_item_rhost w = Some rhostname \<longrightarrow>
            list_all (\<lambda>e. \<not> missing_host_error e) (snd (pam_sm_open_session w argv)) \<and>
            (\<exists>rest. lookups (snd (pam_sm_open_session w argv)) = rhostname # rest)) \<and>
         (get_item_ret w = PAM_SUCCESS \<and> get_item_rhost w = Some [] \<and>
          gethostbyname w [] = Inl herr \<longrightarrow>
            pam_sm_open_session w argv =
              (PAM_SESSION_ERR,
               [Access (snprintf_path PATH_MAX LOCNEW (list_name argv)), GetItem,
                Gethostbyname [], ResolutionError [] herr]) \<and>
            writes (snd (pam_sm_open_session w argv)) = [])"
proof (intro conjI impI)
  assume h: "get_item_ret w = PAM_SUCCESS \<and> get_item_rhost w = None"
  with assms(1) valid_mode [OF assms(2)]
  show r: "pam_sm_open_session w argv =
              (PAM_SESSION_ERR,
               [Access (snprintf_path PATH_MAX LOCNEW (list_name argv)), GetItem,
                MissingHostError])"
    unfolding session_unfold by (auto simp: snd_select_fname MissingHostError_def)
  show "missing_host_error MissingHostError"
    by (simp add: missing_host_error_def MissingHostError_def)
  show "writes (snd (pam_sm_open_session w argv)) = []"
    unfolding r by (simp add: MissingHostError_def)
next
  assume h: "get_item_ret w \<noteq> PAM_SUCCESS"
  with assms(1) valid_mode [OF assms(2)]
  show r: "pam_sm_open_session w argv =
              (PAM_SESSION_ERR,
               [Access (snprintf_path PATH_MAX LOCNEW (list_name argv)), GetItem,
                GetItemError (pam_strerror w (get_item_ret w))])"
    unfolding session_unfold by (auto simp: snd_select_fname GetItemError_def)
  show "missing_host_error (GetItemError (pam_strerror w (get_item_ret w)))"
    by (simp add: missing_host_error_def GetItemError_def)
  show "writes (snd (pam_sm_open_session w argv)) = []"
    unfolding r by (simp add: GetItemError_def)
next
  assume h: "get_item_ret w = PAM_SUCCESS \<and> get_item_rhost w = Some rhostname"
  with run_with_host [OF assms, of w rhostname]
  show "list_all (\<lambda>e. \<not> missing_host_error e) (snd (pam_sm_open_session w argv))"
    and "\<exists>rest. lookups (snd (pam_sm_open_session w argv)) = rhostname # rest"
    by simp_all
next
  assume h: "get_item_ret w = PAM_SUCCESS \<and> get_item_rhost w = Some [] \<and>
          gethostbyname w [] = Inl herr"
  then show r: "pam_sm_open_session w argv =
              (PAM_SESSION_ERR,
               [Access (snprintf_path PATH_MAX LOCNEW (list_name argv)), GetItem,
                Gethostbyname [], ResolutionError [] herr])"
    using run_unresolved_plain [OF assms, of w "[]" herr] by simp
  show "writes (snd (pam_sm_open_session w argv)) = []"
    unfolding r by (simp add: ResolutionError_def)
qed

text \<open>A call without \<^verbatim>\<open>PAM_RHOST\<close>, and one with an empty \<^verbatim>\<open>PAM_RHOST\<close>.\<close>

theorem C7_missing_host_witness:
  "(length [''-''] = 1 \<or> length [''-''] = 2) \<and> ([''-''] ! 0 = ''+'' \<or> [''-''] ! 0 = ''-'') \<and>
   get_item_ret (example_world None) = PAM_SUCCESS \<and>
   get_item_rhost (example_world None) = None \<and>
   pam_sm_open_session (example_world None) [''-''] =
     (PAM_SESSION_ERR, [Access ''/proc/net/xt_recent/DEFAULT'', GetItem, MissingHostError]) \<and>
   writes (snd (pam_sm_open_session (example_world None) [''-''])) = [] \<and>
   get_item_rhost (example_world (Some [])) = Some [] \<and>
   gethostbyname (example_world (Some [])) [] = Inl 1 \<and>
   pam_sm_open_session (example_world (Some [])) [''-''] =
     (PAM_SESSION_ERR,
      [Access ''/proc/net/xt_recent/DEFAULT'', GetItem, Gethostbyname [],
       ResolutionError [] 1]) \<and>
   get_item_ret ((example_world None) \<lparr> get_item_ret := 4 \<rparr>) \<noteq> PAM_SUCCESS \<and>
   pam_sm_open_session ((example_world None) \<lparr> get_item_ret := 4 \<rparr>) [''-''] =
     (PAM_SESSION_ERR,
      [Access ''/proc/net/xt_recent/DEFAULT'', GetItem, GetItemError ''error'']) \<and>
   get_item_rhost (example_world (Some ''203.0.113.5'')) = Some ''203.0.113.5'' \<and>
   list_all (\<lambda>e. \<not> missing_host_error e)
     (snd (pam_sm_open_session (example_world (Some ''203.0.113.5'')) [''-'']))"
proof -
  have v: "length [''-''] = 1 \<or> length [''-''] = 2" "[''-''] ! 0 = ''+'' \<or> [''-''] ! 0 = ''-''"
    by simp_all
  let ?wf = "(example_world None) \<lparr> get_item_ret := 4 \<rparr>"
  have gf: "get_item_ret ?wf \<noteq> PAM_SUCCESS"
    by (simp add: PAM_SUCCESS_def)
  have sf: "pam_strerror ?wf (get_item_ret ?wf) = ''error''"
    by (simp add: example_world_def)
  have p: "snprintf_path PATH_MAX LOCNEW (list_name [''-'']) = ''/proc/net/xt_recent/DEFAULT''"
    by code_simp
  have g: "get_item_ret (example_world x) = PAM_SUCCESS" for x
    by (simp add: example_world_def)
  have n: "get_item_rhost (example_world x) = x" for x
    by (simp add: example_world_def)
  have e: "gethostbyname (example_world (Some [])) [] = Inl 1"
    by (simp add: example_world_def)
  from C7_missing_host [OF v, of "example_world None"] g n
  have c1: "pam_sm_open_session (example_world None) [''-''] =
     (PAM_SESSION_ERR, [Access ''/proc/net/xt_recent/DEFAULT'', GetItem, MissingHostError])"
    and c2: "writes (snd (pam_sm_open_session (example_world None) [''-''])) = []"
    unfolding p by (simp_all add: MissingHostError_def)
  from C7_missing_host [OF v, of "example_world (Some [])" _ 1] g n e
  have c3: "pam_sm_open_session (example_world (Some [])) [''-''] =
     (PAM_SESSION_ERR,
      [Access ''/proc/net/xt_recent/DEFAULT'', GetItem, Gethostbyname [],
       ResolutionError [] 1])"
    unfolding p by simp
  from C7_missing_host [OF v, of ?wf] gf
  have c4: "pam_sm_open_session ?wf [''-''] =
     (PAM_SESSION_ERR,
      [Access ''/proc/net/xt_recent/DEFAULT'', GetItem, GetItemError ''error''])"
    unfolding p sf by blast
  from C7_missing_host [OF v, of "example_world (Some ''203.0.113.5'')" "''203.0.113.5''"] g n
  have c5: "list_all (\<lambda>e. \<not> missing_host_error e)
     (snd (pam_sm_open_session (example_world (Some ''203.0.113.5'')) [''-'']))"
    by blast
  from v g n e c1 c2 c3 gf c4 c5 show ?thesis by simp
qed

subsection \<open>Claim C8\<close>

text \<open>
  Claim C8, as stated: resolution, then the existence probe, then the write. In the code
  the probe (line 137) comes before \<^verbatim>\<open>gethostbyname\<close> (line 160): in the example run
  the \<^verbatim>\<open>access\<close> call is the first event and the lookup the third, so it is not the case
  that every lookup precedes every probe.
\<close>

theorem C8_counterexample:
  "pam_sm_open_session (example_world (Some ''203.0.113.5'')) [''+''] =
     (PAM_SUCCESS,
      [Access ''/proc/net/xt_recent/DEFAULT'', GetItem, Gethostbyname ''203.0.113.5'',
       Fopen ''/proc/net/xt_recent/DEFAULT'',
       Fprintf ''/proc/net/xt_recent/DEFAULT'' (''+203.0.113.5'' @ [newline]),
       Fclose ''/proc/net/xt_recent/DEFAULT'',
       Syslog LOG_DEBUG ''added %s/%s to list %s''
         [ArgStr ''203.0.113.5'', ArgStr ''203.0.113.5'', ArgStr ''DEFAULT'']]) \<and>
   \<not> before is_lookup is_probe
       (snd (pam_sm_open_session (example_world (Some ''203.0.113.5'')) [''+'']))"
  by code_simp

text \<open>
  Claim C8, amended: in every call the selection of the target path (the existence probe
  of the new directory's entry) happens before the resolution of the remote host
  identifier, which happens before the write of the directive line. A successful call
  starts with the probe, the \<^verbatim>\<open>PAM_RHOST\<close> request and the first lookup, in this order,
  and writes afterwards, with no further probe.
\<close>

theorem C8_step_order:
  "(pam_sm_open_session w argv = (r, evs) \<longrightarrow>
      before is_probe is_lookup evs \<and> before is_lookup is_write evs \<and>
      before is_probe is_write evs) \<and>
   (pam_sm_open_session w argv = (PAM_SUCCESS, evs') \<longrightarrow>
      (\<exists>p n rest. evs' = Access p # GetItem # Gethostbyname n # rest \<and>
         list_ex is_write rest \<and> \<not> list_ex is_probe rest))"
  using run_order [of w argv r evs] success_order [of w argv evs'] by blast

text \<open>The example run again, and a run that fails after two lookups.\<close>

theorem C8_step_order_witness:
  "pam_sm_open_session (example_world (Some ''203.0.113.5'')) [''+''] =
     (PAM_SUCCESS,
      [Access ''/proc/net/xt_recent/DEFAULT'', GetItem, Gethostbyname ''203.0.113.5'',
       Fopen ''/proc/net/xt_recent/DEFAULT'',
       Fprintf ''/proc/net/xt_recent/DEFAULT'' (''+203.0.113.5'' @ [newline]),
       Fclose ''/proc/net/xt_recent/DEFAULT'',
       Syslog LOG_DEBUG ''added %s/%s to list %s''
         [ArgStr ''203.0.113.5'', ArgStr ''203.0.113.5'', ArgStr ''DEFAULT'']]) \<and>
   before is_probe is_lookup
     [Access ''/proc/net/xt_recent/DEFAULT'', GetItem, Gethostbyname ''203.0.113.5'',
       Fopen ''/proc/net/xt_recent/DEFAULT'',
       Fprintf ''/proc/net/xt_recent/DEFAULT'' (''+203.0.113.5'' @ [newline]),
       Fclose ''/proc/net/xt_recent/DEFAULT'',
       Syslog LOG_DEBUG ''added %s/%s to list %s''
         [ArgStr ''203.0.113.5'', ArgStr ''203.0.113.5'', ArgStr ''DEFAULT'']] \<and>
   before is_lookup is_write
     [Access ''/proc/net/xt_recent/DEFAULT'', GetItem, Gethostbyname ''203.0.113.5'',
       Fopen ''/proc/net/xt_recent/DEFAULT'',
       Fprintf ''/proc/net/xt_recent/DEFAULT'' (''+203.0.113.5'' @ [newline]),
       Fclose ''/proc/net/xt_recent/DEFAULT'',
       Syslog LOG_DEBUG ''added %s/%s to list %s''
         [ArgStr ''203.0.113.5'', ArgStr ''203.0.113.5'', ArgStr ''DEFAULT'']] \<and>
   pam_sm_open_session (example_world (Some ''::ffff:192.0.2.1'')) [''+''] =
     (PAM_SESSION_ERR,
      [Access ''/proc/net/xt_recent/DEFAULT'', GetItem, Gethostbyname ''::ffff:192.0.2.1'',
       Gethostbyname ''192.0.2.1'', ResolutionError ''::ffff:192.0.2.1'' 1]) \<and>
   before is_probe is_lookup
     [Access ''/proc/net/xt_recent/DEFAULT'', GetItem, Gethostbyname ''::ffff:192.0.2.1'',
      Gethostbyname ''192.0.2.1'', ResolutionError ''::ffff:192.0.2.1'' 1]"
proof -
  let ?evs = "[Access ''/proc/net/xt_recent/DEFAULT'', GetItem, Gethostbyname ''203.0.113.5'',
       Fopen ''/proc/net/xt_recent/DEFAULT'',
       Fprintf ''/proc/net/xt_recent/DEFAULT'' (''+203.0.113.5'' @ [newline]),
       Fclose ''/proc/net/xt_recent/DEFAULT'',
       Syslog LOG_DEBUG ''added %s/%s to list %s''
         [ArgStr ''203.0.113.5'', ArgStr ''203.0.113.5'', ArgStr ''DEFAULT'']]"
  let ?evs' = "[Access ''/proc/net/xt_recent/DEFAULT'', GetItem,
      Gethostbyname ''::ffff:192.0.2.1'', Gethostbyname ''192.0.2.1'',
      ResolutionError ''::ffff:192.0.2.1'' 1]"
  have run: "pam_sm_open_session (example_world (Some ''203.0.113.5'')) [''+''] =
     (PAM_SUCCESS, ?evs)"
    by code_simp
  have run': "pam_sm_open_session (example_world (Some ''::ffff:192.0.2.1'')) [''+''] =
     (PAM_SESSION_ERR, ?evs')"
    by code_simp
  from C8_step_order [of "example_world (Some ''203.0.113.5'')" "[''+'']" PAM_SUCCESS ?evs ?evs]
    run
  have c1: "before is_probe is_lookup ?evs \<and> before is_lookup is_write ?evs"
    by blast
  from C8_step_order [of "example_world (Some ''::ffff:192.0.2.1'')" "[''+'']"
      PAM_SESSION_ERR ?evs' ?evs'] run'
  have c2: "before is_probe is_lookup ?evs'"
    by blast
  from run run' c1 c2 show ?thesis by blast
qed

subsection \<open>Claim C9\<close>

text \<open>
  Claim C9. Two successful calls in succession with the same mode argument and the same
  resolved address print two identical lines: the line is the mode argument, the address
  text and a newline, whatever the earlier call did and whatever else differs in the
  environment of the later one (here two arbitrary worlds \<open>w\<close> and \<open>w'\<close>). The events
  of the two calls in succession are \<open>evs @ evs'\<close>.
\<close>

theorem C9_same_line_twice:
  assumes "pam_sm_open_session w argv = (PAM_SUCCESS, evs)"
    and "pam_sm_open_session w' argv' = (PAM_SUCCESS, evs')"
    and "argv ! 0 = argv' ! 0"
    and "resolved_address w = resolved_address w'"
  shows "\<exists>address. resolved_address w = Some address \<and>
           map snd (writes (evs @ evs')) =
             [argv ! 0 @ address @ [newline], argv ! 0 @ address @ [newline]]"
proof -
  from success_writes [OF assms(1)] obtain address where
    r: "resolved_address w = Some address" and
    w1: "writes evs = [(fst (select_fname w (list_name argv)), argv ! 0 @ address @ [newline])]"
    by blast
  from success_writes [OF assms(2)] obtain address' where
    r': "resolved_address w' = Some address'" and
    w2: "writes evs' =
           [(fst (select_fname w' (list_name argv')), argv' ! 0 @ address' @ [newline])]"
    by blast
  from r r' assms(4) have "address' = address" by simp
  with w1 w2 assms(3) r show ?thesis
    by (simp add: writes_append)
qed

text \<open>An add on a kernel with the new directory, then the same add for the same client
  in mixed notation on a kernel with the old one: the same line twice.\<close>

theorem C9_same_line_twice_witness:
  "fst (pam_sm_open_session (example_world (Some ''203.0.113.5'')) [''+'']) = PAM_SUCCESS \<and>
   fst (pam_sm_open_session (legacy_world (Some ''::ffff:203.0.113.5'')) [''+'', ''DEFAULT''])
     = PAM_SUCCESS \<and>
   resolved_address (example_world (Some ''203.0.113.5'')) =
     resolved_address (legacy_world (Some ''::ffff:203.0.113.5'')) \<and>
   map snd (writes
     (snd (pam_sm_open_session (example_world (Some ''203.0.113.5'')) [''+'']) @
      snd (pam_sm_open_session (legacy_world (Some ''::ffff:203.0.113.5''))
             [''+'', ''DEFAULT'']))) =
     [''+203.0.113.5'' @ [newline], ''+203.0.113.5'' @ [newline]]"
proof -
  let ?w = "example_world (Some ''203.0.113.5'')"
  let ?w' = "legacy_world (Some ''::ffff:203.0.113.5'')"
  have s1: "fst (pam_sm_open_session ?w [''+'']) = PAM_SUCCESS"
    by code_simp
  have s2: "fst (pam_sm_open_session ?w' [''+'', ''DEFAULT'']) = PAM_SUCCESS"
    by code_simp
  have r1: "resolved_address ?w = Some ''203.0.113.5''"
    by code_simp
  have r2: "resolved_address ?w' = Some ''203.0.113.5''"
    by code_simp
  have run1: "pam_sm_open_session ?w [''+''] =
                (PAM_SUCCESS, snd (pam_sm_open_session ?w [''+'']))"
    using s1 by (simp add: prod_eq_iff)
  have run2: "pam_sm_open_session ?w' [''+'', ''DEFAULT''] =
                (PAM_SUCCESS, snd (pam_sm_open_session ?w' [''+'', ''DEFAULT'']))"
    using s2 by (simp add: prod_eq_iff)
  from C9_same_line_twice [OF run1 run2] r1 r2
  have "map snd (writes (snd (pam_sm_open_session ?w [''+'']) @
                         snd (pam_sm_open_session ?w' [''+'', ''DEFAULT'']))) =
          [''+203.0.113.5'' @ [newline], ''+203.0.113.5'' @ [newline]]"
    by simp
  with s1 s2 r1 r2 show ?thesis by simp
qed

subsection \<open>Claim C10\<close>

text \<open>
  Claim C10. A list name too long for the buffer does not make the call fail at path
  construction. The return value of \<^verbatim>\<open>snprintf\<close> is not looked at: the candidate is cut
  to \<open>PATH_MAX - 1\<close> characters, the probe is made on the cut path, the next thing
  the call does is to ask for \<^verbatim>\<open>PAM_RHOST\<close>, and the file it opens, if it gets that
  far, is the cut path too (of the new or of the old directory). Whenever base, slash
  and name together with the terminator exceed \<open>PATH_MAX\<close>, the cut path differs from
  the intended one. Success still depends only on the host name, its resolution and
  the open.
\<close>

theorem C10_truncated_path:
  assumes "pam_sm_open_session w argv = (r, evs)"
    and "length argv = 1 \<or> length argv = 2"
    and "argv ! 0 = ''+'' \<or> argv ! 0 = ''-''"
  shows "take 2 evs = [Access (take (PATH_MAX - 1) (LOCNEW @ ''/'' @ list_name argv)), GetItem] \<and>
         probes evs = [take (PATH_MAX - 1) (LOCNEW @ ''/'' @ list_name argv)] \<and>
         (opens evs = [] \<or>
          opens evs =
            [take (PATH_MAX - 1)
               ((if access_F_OK w (take (PATH_MAX - 1) (LOCNEW @ ''/'' @ list_name argv))
                 then LOCNEW else LOCOLD) @ ''/'' @ list_name argv)]) \<and>
         (PATH_MAX < length (LOCNEW @ ''/'' @ list_name argv) + 1 \<longrightarrow>
            length (take (PATH_MAX - 1) (LOCNEW @ ''/'' @ list_name argv)) = PATH_MAX - 1 \<and>
            take (PATH_MAX - 1) (LOCNEW @ ''/'' @ list_name argv) \<noteq>
              LOCNEW @ ''/'' @ list_name argv) \<and>
         (PATH_MAX < length (LOCOLD @ ''/'' @ list_name argv) + 1 \<longrightarrow>
            length (take (PATH_MAX - 1) (LOCOLD @ ''/'' @ list_name argv)) = PATH_MAX - 1 \<and>
            take (PATH_MAX - 1) (LOCOLD @ ''/'' @ list_name argv) \<noteq>
              LOCOLD @ ''/'' @ list_name argv) \<and>
         ((r = PAM_SUCCESS) =
            (get_item_ret w = PAM_SUCCESS \<and> resolved_address w \<noteq> None \<and>
             fopen_w w
               (take (PATH_MAX - 1)
                  ((if access_F_OK w (take (PATH_MAX - 1) (LOCNEW @ ''/'' @ list_name argv))
                    then LOCNEW else LOCOLD) @ ''/'' @ list_name argv)) = None))"
proof -
  let ?n = "list_name argv"
  have t: "fst (select_fname w ?n) =
             take (PATH_MAX - 1)
               ((if access_F_OK w (take (PATH_MAX - 1) (LOCNEW @ ''/'' @ ?n))
                 then LOCNEW else LOCOLD) @ ''/'' @ ?n)"
    by (simp add: fst_select_fname snprintf_path_def)
  have p: "0 < PATH_MAX"
    by (simp add: PATH_MAX_def)
  from run_probes [OF assms]
  have a: "take 2 evs = [Access (take (PATH_MAX - 1) (LOCNEW @ ''/'' @ ?n)), GetItem]"
    and b: "probes evs = [take (PATH_MAX - 1) (LOCNEW @ ''/'' @ ?n)]"
    by (simp_all add: snprintf_path_def)
  from run_opens [OF assms(1)]
  have c: "opens evs = [] \<or>
          opens evs =
            [take (PATH_MAX - 1)
               ((if access_F_OK w (take (PATH_MAX - 1) (LOCNEW @ ''/'' @ ?n))
                 then LOCNEW else LOCOLD) @ ''/'' @ ?n)]"
    unfolding t .
  have d: "PATH_MAX < length (LOCNEW @ ''/'' @ ?n) + 1 \<longrightarrow>
            length (take (PATH_MAX - 1) (LOCNEW @ ''/'' @ ?n)) = PATH_MAX - 1 \<and>
            take (PATH_MAX - 1) (LOCNEW @ ''/'' @ ?n) \<noteq> LOCNEW @ ''/'' @ ?n"
    using take_truncates [of PATH_MAX "LOCNEW @ ''/'' @ ?n"] p by blast
  have e: "PATH_MAX < length (LOCOLD @ ''/'' @ ?n) + 1 \<longrightarrow>
            length (take (PATH_MAX - 1) (LOCOLD @ ''/'' @ ?n)) = PATH_MAX - 1 \<and>
            take (PATH_MAX - 1) (LOCOLD @ ''/'' @ ?n) \<noteq> LOCOLD @ ''/'' @ ?n"
    using take_truncates [of PATH_MAX "LOCOLD @ ''/'' @ ?n"] p by blast
  from success_iff [OF assms(1)] assms(2,3)
  have f: "(r = PAM_SUCCESS) =
            (get_item_ret w = PAM_SUCCESS \<and> resolved_address w \<noteq> None \<and>
             fopen_w w
               (take (PATH_MAX - 1)
                  ((if access_F_OK w (take (PATH_MAX - 1) (LOCNEW @ ''/'' @ ?n))
                    then LOCNEW else LOCOLD) @ ''/'' @ ?n)) = None)"
    unfolding t by simp
  from a b c d e f show ?thesis by blast
qed

text \<open>An add to a list with a name of 4090 characters goes through, on a path cut to
  4095 characters.\<close>

theorem C10_truncated_path_witness:
  "(length [''+'', long_name] = 1 \<or> length [''+'', long_name] = 2) \<and>
   ([''+'', long_name] ! 0 = ''+'' \<or> [''+'', long_name] ! 0 = ''-'') \<and>
   PATH_MAX < length (LOCNEW @ ''/'' @ list_name [''+'', long_name]) + 1 \<and>
   fst (pam_sm_open_session (legacy_world (Some ''203.0.113.5'')) [''+'', long_name]) =
     PAM_SUCCESS \<and>
   probes (snd (pam_sm_open_session (legacy_world (Some ''203.0.113.5'')) [''+'', long_name])) =
     [take (PATH_MAX - 1) (LOCNEW @ ''/'' @ long_name)] \<and>
   opens (snd (pam_sm_open_session (legacy_world (Some ''203.0.113.5'')) [''+'', long_name])) =
     [take (PATH_MAX - 1) (LOCOLD @ ''/'' @ long_name)] \<and>
   take (PATH_MAX - 1) (LOCOLD @ ''/'' @ long_name) \<noteq> LOCOLD @ ''/'' @ long_name"
proof -
  let ?w = "legacy_world (Some ''203.0.113.5'')"
  let ?argv = "[''+'', long_name]"
  have n: "list_name ?argv = long_name"
    by (simp add: list_name_def)
  have h1: "length ?argv = 1 \<or> length ?argv = 2" by simp
  have h2: "?argv ! 0 = ''+'' \<or> ?argv ! 0 = ''-''" by simp
  have h3: "PATH_MAX < length (LOCNEW @ ''/'' @ list_name ?argv) + 1"
    unfolding n by (rule long_name_exceeds)
  have h4: "PATH_MAX < length (LOCOLD @ ''/'' @ list_name ?argv) + 1"
    unfolding n by (rule long_name_exceeds)
  have g: "get_item_ret ?w = PAM_SUCCESS" by code_simp
  have a: "resolved_address ?w \<noteq> None" by code_simp
  have f: "fopen_w ?w x = None" for x
    by (simp add: legacy_world_def example_world_def)
  have x: "\<not> access_F_OK ?w y" for y
    by (simp add: legacy_world_def example_world_def)
  have run: "pam_sm_open_session ?w ?argv =
               (fst (pam_sm_open_session ?w ?argv), snd (pam_sm_open_session ?w ?argv))"
    by simp
  note inst = C10_truncated_path [OF run h1 h2]
  from inst g a f have c1: "fst (pam_sm_open_session ?w ?argv) = PAM_SUCCESS"
    by simp
  from inst have c2: "probes (snd (pam_sm_open_session ?w ?argv)) =
     [take (PATH_MAX - 1) (LOCNEW @ ''/'' @ long_name)]"
    unfolding n by blast
  from inst h4 have c4: "take (PATH_MAX - 1) (LOCOLD @ ''/'' @ long_name) \<noteq>
     LOCOLD @ ''/'' @ long_name"
    unfolding n by blast
  from c1 have "pam_sm_open_session ?w ?argv = (PAM_SUCCESS, snd (pam_sm_open_session ?w ?argv))"
    by (simp add: prod_eq_iff)
  from run_opens_success [OF this]
  have c3: "opens (snd (pam_sm_open_session ?w ?argv)) =
     [take (PATH_MAX - 1) (LOCOLD @ ''/'' @ long_name)]"
    unfolding n by (simp add: fst_select_fname x snprintf_path_def)
  from h1 h2 h3 c1 c2 c3 c4 show ?thesis
    unfolding n by blast
qed

end
